theory Spec2Isabelle
  imports Main "HOL-Library.Sublist" "HOL-Library.Char_ord" "HOL-Library.List_Lexorder"
begin

section \<open>Errors\<close>

text \<open>
  A Go \<^verbatim>\<open>error\<close> value is kept as its message. A call of \<^verbatim>\<open>downloadFiles\<close> or
  \<^verbatim>\<open>uploadFiles\<close> either returns (an error or \<^verbatim>\<open>nil\<close>) or panics:
  \<^verbatim>\<open>session.Must\<close> panics when the session cannot be created.
\<close>

datatype err = Err string

fun err_msg :: "err \<Rightarrow> string" where
  "err_msg (Err m) = m"

datatype outcome = Returned "err option" | Panicked string

section \<open>Paths\<close>

text \<open>
  \<^verbatim>\<open>migrate.go\<close> builds local paths with \<^verbatim>\<open>filepath.Join\<close> and
  \<^verbatim>\<open>filepath.Dir\<close>, and turns them back into keys with \<^verbatim>\<open>filepath.Rel\<close>,
  \<^verbatim>\<open>filepath.ToSlash\<close> and \<^verbatim>\<open>strings.TrimPrefix\<close>. These belong to Go's
  standard library and are modelled as the library documents them, on a platform whose
  separator is the slash (no volume names; \<^verbatim>\<open>ToSlash\<close> changes nothing there).
  A path is read as its elements, the strings between the separators.
\<close>

fun split_sep :: "string \<Rightarrow> string list" where
  "split_sep [] = [[]]"
| "split_sep (c # cs) =
     (if c = CHR ''/'' then [] # split_sep cs
      else (case split_sep cs of [] \<Rightarrow> [[c]] | s # ss \<Rightarrow> (c # s) # ss))"

fun join_sep :: "string list \<Rightarrow> string" where
  "join_sep [] = []"
| "join_sep [s] = s"
| "join_sep (s # t # ss) = s @ CHR ''/'' # join_sep (t # ss)"

text \<open>
  \<^verbatim>\<open>filepath.Clean\<close>: empty elements and \<^verbatim>\<open>.\<close> are dropped; \<^verbatim>\<open>..\<close> removes
  the element before it when there is one that is not itself \<^verbatim>\<open>..\<close>, is dropped at
  the root of a rooted path, and is kept otherwise. The result of a rooted path
  starts with the separator; an empty result is written \<^verbatim>\<open>.\<close>.
\<close>

definition clean_step :: "bool \<Rightarrow> string list \<Rightarrow> string \<Rightarrow> string list" where
  "clean_step rooted out seg =
     (if seg = [] \<or> seg = ''.'' then out
      else if seg = ''..'' then
        (if out \<noteq> [] \<and> last out \<noteq> ''..'' then butlast out
         else if rooted then out
         else out @ [''..''])
      else out @ [seg])"

definition path_rooted :: "string \<Rightarrow> bool" where
  "path_rooted p = (p \<noteq> [] \<and> hd p = CHR ''/'')"

definition clean_out :: "string \<Rightarrow> string list" where
  "clean_out p = foldl (clean_step (path_rooted p)) [] (split_sep p)"

definition render :: "bool \<Rightarrow> string list \<Rightarrow> string" where
  "render rooted out =
     (if rooted then CHR ''/'' # join_sep out
      else if out = [] then ''.''
      else join_sep out)"

definition filepath_Clean :: "string \<Rightarrow> string" where
  "filepath_Clean p = render (path_rooted p) (clean_out p)"

text \<open>
  \<^verbatim>\<open>filepath.Join(a, b)\<close>: empty arguments are ignored, the others are joined with the
  separator and the result is cleaned. \<^verbatim>\<open>filepath.Dir\<close> cleans what stands before the
  last element.
\<close>

definition filepath_Join :: "string \<Rightarrow> string \<Rightarrow> string" where
  "filepath_Join a b =
     (if a \<noteq> [] then filepath_Clean (a @ CHR ''/'' # b)
      else if b \<noteq> [] then filepath_Clean b
      else [])"

definition filepath_Dir :: "string \<Rightarrow> string" where
  "filepath_Dir p = filepath_Clean (rev (dropWhile (\<lambda>c. c \<noteq> CHR ''/'') (rev p)))"

text \<open>
  \<^verbatim>\<open>filepath.Rel(basepath, targpath)\<close>: both paths are cleaned; equal paths give
  \<^verbatim>\<open>.\<close>; a rooted and an unrooted path cannot be related; otherwise the common
  leading elements are dropped, one \<^verbatim>\<open>..\<close> is written for each element left of the
  base and the elements left of the target follow. A base that still starts with
  \<^verbatim>\<open>..\<close> where the two paths part is an error.
\<close>

fun strip_common :: "string list \<Rightarrow> string list \<Rightarrow> string list \<times> string list" where
  "strip_common (b # bs) (t # ts) = (if b = t then strip_common bs ts else (b # bs, t # ts))"
| "strip_common bs ts = (bs, ts)"

definition path_elems :: "string \<Rightarrow> string list" where
  "path_elems p = (if p = [] then [] else if p = ''/'' then [[]] else split_sep p)"

definition rel_cleaned :: "string \<Rightarrow> string \<Rightarrow> string option" where
  "rel_cleaned base targ =
     (if targ = base then Some ''.''
      else
        let base = (if base = ''.'' then [] else base);
            baseSlashed = (base \<noteq> [] \<and> hd base = CHR ''/'');
            targSlashed = (targ \<noteq> [] \<and> hd targ = CHR ''/'')
        in if baseSlashed \<noteq> targSlashed then None
           else
             case strip_common (path_elems base) (path_elems targ) of
               (bs, ts) \<Rightarrow>
                 if bs \<noteq> [] \<and> ts \<noteq> [] \<and> hd bs = ''..'' then None
                 else if bs \<noteq> [] then Some (join_sep (map (\<lambda>_. ''..'') bs @ ts))
                 else Some (join_sep ts))"

definition filepath_Rel :: "string \<Rightarrow> string \<Rightarrow> err + string" where
  "filepath_Rel basepath targpath =
     (case rel_cleaned (filepath_Clean basepath) (filepath_Clean targpath) of
        Some r \<Rightarrow> Inr r
      | None \<Rightarrow> Inl (Err (''Rel: can't make '' @ targpath @ '' relative to '' @ basepath)))"

definition filepath_ToSlash :: "string \<Rightarrow> string" where
  "filepath_ToSlash p = p"

definition strings_TrimPrefix :: "string \<Rightarrow> string \<Rightarrow> string" where
  "strings_TrimPrefix s pre = (if prefix pre s then drop (length pre) s else s)"

text \<open>
  The two directions of the key mapping, as \<^verbatim>\<open>migrate.go\<close> writes them:
  \<^verbatim>\<open>localFilePath := filepath.Join(localPath, *object.Key)\<close> in \<^verbatim>\<open>downloadFiles\<close>, and
  in \<^verbatim>\<open>uploadFiles\<close>
  \<^verbatim>\<open>relPath, _ := filepath.Rel(directory, path)\<close> (the error is dropped, which leaves
  the empty string), \<^verbatim>\<open>uploadKey := filepath.ToSlash(relPath)\<close>,
  \<^verbatim>\<open>uploadKey = strings.TrimPrefix(uploadKey, "./")\<close>.
\<close>

definition localFilePath_of :: "string \<Rightarrow> string \<Rightarrow> string" where
  "localFilePath_of localPath key = filepath_Join localPath key"

definition uploadKey_of :: "string \<Rightarrow> string \<Rightarrow> string" where
  "uploadKey_of directory path =
     (let relPath = (case filepath_Rel directory path of Inr r \<Rightarrow> r | Inl _ \<Rightarrow> []);
          uploadKey = filepath_ToSlash relPath
      in strings_TrimPrefix uploadKey ''./'')"

text \<open>
  A key is a clean relative path when none of its elements is empty, \<^verbatim>\<open>.\<close> or
  \<^verbatim>\<open>..\<close>: no leading, trailing or doubled slash.
\<close>

definition normal_elem :: "string \<Rightarrow> bool" where
  "normal_elem s = (s \<noteq> [] \<and> s \<noteq> ''.'' \<and> s \<noteq> ''..'')"

definition clean_key :: "string \<Rightarrow> bool" where
  "clean_key k = list_all normal_elem (split_sep k)"

text \<open>
  What \<^verbatim>\<open>filepath.Clean\<close> keeps of a path: elements \<^verbatim>\<open>..\<close> first, and only
  where the path is not rooted, then elements that are none of the empty string,
  \<^verbatim>\<open>.\<close> and \<^verbatim>\<open>..\<close>, none holding a separator.
\<close>

definition ok_out :: "bool \<Rightarrow> string list \<Rightarrow> bool" where
  "ok_out rooted out =
     (\<exists>n ns. out = replicate n ''..'' @ ns \<and> list_all normal_elem ns \<and>
        (\<forall>s\<in>set ns. CHR ''/'' \<notin> set s) \<and> (rooted \<longrightarrow> n = 0))"

text \<open>
  \<open>inside root p\<close>: the path \<open>p\<close> is \<open>root\<close> or lies below it.
\<close>

definition inside :: "string \<Rightarrow> string \<Rightarrow> bool" where
  "inside root p =
     (path_rooted root = path_rooted p \<and> prefix (clean_out root) (clean_out p) \<and>
      ''..'' \<notin> set (drop (length (clean_out root)) (clean_out p)))"

section \<open>Data model\<close>

type_synonym bytes = string

record S3Config =
  AccessKey :: string
  SecretKey :: string
  Endpoint :: string
  Bucket :: string
  LocalDownloadPath :: string
  Region :: string

record Config =
  Source :: S3Config
  Destination :: S3Config

text \<open>
  An entry of a listing (\<^verbatim>\<open>s3.Object\<close>: the code reads \<^verbatim>\<open>Key\<close> and the
  \<^verbatim>\<open>int64\<close> \<^verbatim>\<open>Size\<close>, which it only compares with 0), and the answer to one
  \<^verbatim>\<open>ListObjects\<close> request.
\<close>

record s3_Object =
  Key :: string
  Size :: int

record ListObjectsOutput =
  Contents :: "s3_Object list"
  IsTruncated :: bool

section \<open>The environment\<close>

text \<open>
  The object store, the file system's failures and the configuration file are outside
  the program. The environment fixes, for every call the program can make, whether it
  fails and what it returns:
  \<^item> \<open>bucket_objects\<close>: the objects of a bucket (by endpoint and bucket name), in the
    order the service lists them; \<open>max_keys\<close>: how many entries one listing request
    returns at most (the page size of the service);
  \<^item> \<open>get_object\<close>: the body of an object, or the error of the request;
  \<^item> \<open>copy_err\<close>: \<open>Some (n, er)\<close> when \<^verbatim>\<open>io.Copy\<close> into that file stops with the error
    \<open>er\<close> after \<open>n\<close> bytes.
\<close>

record env =
  read_file :: "string \<Rightarrow> err + bytes"
  yaml_unmarshal :: "bytes \<Rightarrow> err + Config"
  new_session_err :: "string \<Rightarrow> err option"
  list_objects_err :: "string \<Rightarrow> string \<Rightarrow> err option"
  bucket_objects :: "string \<Rightarrow> string \<Rightarrow> s3_Object list"
  max_keys :: nat
  get_object :: "string \<Rightarrow> string \<Rightarrow> string \<Rightarrow> err + bytes"
  put_object_err :: "string \<Rightarrow> string \<Rightarrow> string \<Rightarrow> err option"
  mkdir_all_err :: "string \<Rightarrow> err option"
  create_err :: "string \<Rightarrow> err option"
  copy_err :: "string \<Rightarrow> (nat \<times> err) option"
  lstat_err :: "string \<Rightarrow> err option"
  readdir_err :: "string \<Rightarrow> err option"
  open_err :: "string \<Rightarrow> err option"
  remove_all_err :: "string \<Rightarrow> err option"

section \<open>The state\<close>

text \<open>
  What the program changes or leaves behind:
  \<^item> \<open>files\<close>: the regular files on the local disk, each under its cleaned path with
    its content;
  \<^item> \<open>dirs\<close>: the directories on the local disk, by cleaned path;
  \<^item> \<open>handles\<close>: the file handles that are open, by path, the latest first;
  \<^item> \<open>deferred\<close>: the \<^verbatim>\<open>Close\<close> calls the running function has deferred;
  \<^item> \<open>gets\<close>: the keys of the \<^verbatim>\<open>GetObject\<close> requests sent, in order;
  \<^item> \<open>puts\<close>: key and body of the \<^verbatim>\<open>PutObject\<close> requests sent, in order;
  \<^item> \<open>stdout\<close>: the lines printed.
\<close>

record world =
  files :: "(string \<times> bytes) list"
  dirs :: "string list"
  handles :: "string list"
  deferred :: "string list"
  gets :: "string list"
  puts :: "(string \<times> bytes) list"
  stdout :: "string list"

definition println :: "string \<Rightarrow> world \<Rightarrow> world" where
  "println line w = w\<lparr>stdout := stdout w @ [line]\<rparr>"

fun write_file :: "string \<Rightarrow> bytes \<Rightarrow> (string \<times> bytes) list \<Rightarrow> (string \<times> bytes) list" where
  "write_file p c [] = [(p, c)]"
| "write_file p c ((q, d) # fs) = (if q = p then (p, c) # fs else (q, d) # write_file p c fs)"


definition file_content :: "world \<Rightarrow> string \<Rightarrow> bytes" where
  "file_content w p = (case map_of (files w) (filepath_Clean p) of Some c \<Rightarrow> c | None \<Rightarrow> [])"

subsection \<open>File system calls\<close>

text \<open>
  \<^verbatim>\<open>os.MkdirAll\<close> creates the directory with every parent that is missing;
  \<^verbatim>\<open>os.Create\<close> creates or truncates the file and returns a handle on it;
  \<^verbatim>\<open>io.Copy\<close> writes the body, all of it or what was written before the error;
  \<^verbatim>\<open>os.RemoveAll\<close> removes the path and everything below it. When it fails, what
  it had removed before the error is not modelled and the state is left as it was:
  \<^verbatim>\<open>main\<close> prints the error and exits, and nothing reads the disk after that.
\<close>

definition os_MkdirAll :: "env \<Rightarrow> string \<Rightarrow> world \<Rightarrow> err + world" where
  "os_MkdirAll e p w =
     (case mkdir_all_err e p of
        Some er \<Rightarrow> Inl er
      | None \<Rightarrow>
          Inr (w\<lparr>dirs := List.union (dirs w)
                 (map (render (path_rooted p)) (prefixes (clean_out p)))\<rparr>))"

definition os_Create :: "env \<Rightarrow> string \<Rightarrow> world \<Rightarrow> err + world" where
  "os_Create e p w =
     (case create_err e p of
        Some er \<Rightarrow> Inl er
      | None \<Rightarrow>
          Inr (w\<lparr>files := write_file (filepath_Clean p) [] (files w),
                 handles := p # handles w\<rparr>))"

definition io_Copy :: "env \<Rightarrow> string \<Rightarrow> bytes \<Rightarrow> world \<Rightarrow> err option \<times> world" where
  "io_Copy e p body w =
     (case copy_err e p of
        None \<Rightarrow> (None, w\<lparr>files := write_file (filepath_Clean p) body (files w)\<rparr>)
      | Some (n, er) \<Rightarrow>
          (Some er, w\<lparr>files := write_file (filepath_Clean p) (take n body) (files w)\<rparr>))"

definition os_Open :: "env \<Rightarrow> string \<Rightarrow> world \<Rightarrow> err + world" where
  "os_Open e p w =
     (case open_err e p of
        Some er \<Rightarrow> Inl er
      | None \<Rightarrow> Inr (w\<lparr>handles := p # handles w\<rparr>))"

definition file_Close :: "string \<Rightarrow> world \<Rightarrow> world" where
  "file_Close p w = w\<lparr>handles := remove1 p (handles w)\<rparr>"

definition os_RemoveAll :: "env \<Rightarrow> string \<Rightarrow> world \<Rightarrow> err + world" where
  "os_RemoveAll e p w =
     (case remove_all_err e p of
        Some er \<Rightarrow> Inl er
      | None \<Rightarrow>
          Inr (w\<lparr>files := filter (\<lambda>(q, c). \<not> inside p q) (files w),
                 dirs := filter (\<lambda>q. \<not> inside p q) (dirs w)\<rparr>))"

text \<open>
  \<^verbatim>\<open>defer f.Close()\<close> puts the call on the list of the running function; the list is
  run, the latest first, when the function returns.
\<close>

definition defer_Close :: "string \<Rightarrow> world \<Rightarrow> world" where
  "defer_Close p w = w\<lparr>deferred := p # deferred w\<rparr>"

definition run_deferred :: "world \<Rightarrow> world" where
  "run_deferred w = w\<lparr>handles := fold remove1 (deferred w) (handles w), deferred := []\<rparr>"

subsection \<open>Object store calls\<close>

text \<open>
  One \<^verbatim>\<open>ListObjects\<close> request returns the first page of the bucket: at most
  \<open>max_keys\<close> entries, and \<^verbatim>\<open>IsTruncated\<close> tells whether more are left.
\<close>

definition ListObjects :: "env \<Rightarrow> string \<Rightarrow> string \<Rightarrow> err + ListObjectsOutput" where
  "ListObjects e endpoint bucket =
     (case list_objects_err e endpoint bucket of
        Some er \<Rightarrow> Inl er
      | None \<Rightarrow>
          Inr \<lparr>Contents = take (max_keys e) (bucket_objects e endpoint bucket),
               IsTruncated = (max_keys e < length (bucket_objects e endpoint bucket))\<rparr>)"

definition GetObject :: "env \<Rightarrow> string \<Rightarrow> string \<Rightarrow> string \<Rightarrow> world \<Rightarrow> (err + bytes) \<times> world" where
  "GetObject e endpoint bucket key w =
     (get_object e endpoint bucket key, w\<lparr>gets := gets w @ [key]\<rparr>)"

definition PutObject :: "env \<Rightarrow> string \<Rightarrow> string \<Rightarrow> string \<Rightarrow> bytes \<Rightarrow> world \<Rightarrow> err option \<times> world" where
  "PutObject e endpoint bucket key body w =
     (put_object_err e endpoint bucket key, w\<lparr>puts := puts w @ [(key, body)]\<rparr>)"

section \<open>The download phase\<close>

text \<open>
  The body of the loop of \<^verbatim>\<open>downloadFiles\<close>, for one entry of the listing. Every
  error branch prints a line and goes on to the next entry (\<^verbatim>\<open>continue\<close>). The
  request for the object is sent before the size is looked at; the size guards the
  creation of the local file and the copy only. The \<^verbatim>\<open>Close\<close> of the local file is
  deferred, not called.
\<close>

definition process_object :: "env \<Rightarrow> string \<Rightarrow> string \<Rightarrow> string \<Rightarrow> world \<Rightarrow> s3_Object \<Rightarrow> world" where
  "process_object e endpoint bucket localPath w object =
     (let localFilePath = filepath_Join localPath (Key object) in
      case os_MkdirAll e (filepath_Dir localFilePath) w of
        Inl er \<Rightarrow> println (''Error creating subdirectories: '' @ err_msg er) w
      | Inr w1 \<Rightarrow>
          (case GetObject e endpoint bucket (Key object) w1 of
             (Inl er, w2) \<Rightarrow>
               println (''Error getting object: '' @ Key object @ '' '' @ err_msg er) w2
           | (Inr body, w2) \<Rightarrow>
               if Size object > 0 then
                 (case os_Create e localFilePath w2 of
                    Inl er \<Rightarrow>
                      println (''Error creating local file: '' @ localFilePath @ '' '' @ err_msg er) w2
                  | Inr w3 \<Rightarrow>
                      (case io_Copy e localFilePath body (defer_Close localFilePath w3) of
                         (Some er, w4) \<Rightarrow>
                           println (''Error copying object to local file: '' @ Key object @ '' ''
                                    @ err_msg er) w4
                       | (None, w4) \<Rightarrow> println (''Downloaded file: '' @ Key object) w4))
               else w2))"

definition download_loop :: "env \<Rightarrow> string \<Rightarrow> string \<Rightarrow> string \<Rightarrow> world \<Rightarrow> s3_Object list \<Rightarrow> world" where
  "download_loop e endpoint bucket localPath w objects =
     foldl (process_object e endpoint bucket localPath) w objects"

text \<open>
  \<^verbatim>\<open>downloadFiles\<close>: one listing request, whose error is returned; then the loop over
  the entries of that answer; then \<^verbatim>\<open>nil\<close>. The deferred calls run at the return.
\<close>

definition downloadFiles ::
  "env \<Rightarrow> string \<Rightarrow> string \<Rightarrow> string \<Rightarrow> string \<Rightarrow> string \<Rightarrow> string \<Rightarrow> world \<Rightarrow> outcome \<times> world" where
  "downloadFiles e accessKey secretKey endpoint bucket localPath region w =
     (case new_session_err e endpoint of
        Some er \<Rightarrow> (Panicked (err_msg er), w)
      | None \<Rightarrow>
          (case ListObjects e endpoint bucket of
             Inl er \<Rightarrow> (Returned (Some er), w)
           | Inr listObjectsOutput \<Rightarrow>
               (Returned None,
                run_deferred (download_loop e endpoint bucket localPath (w\<lparr>deferred := []\<rparr>)
                  (Contents listObjectsOutput)))))"

section \<open>The upload phase\<close>

text \<open>
  One call of the function that \<^verbatim>\<open>uploadFiles\<close> hands to \<^verbatim>\<open>filepath.Walk\<close>: the path
  visited, whether it is a directory, its size, and the error the walk met there.
\<close>

datatype visit = Visit (v_path: string) (v_isdir: bool) (v_size: int) (v_err: "err option")

text \<open>
  The function passed to \<^verbatim>\<open>filepath.Walk\<close>. The file is opened before its size is
  looked at, and its \<^verbatim>\<open>Close\<close> is deferred inside this function, so it runs on each
  return that follows the open.
\<close>

definition upload_visit :: "env \<Rightarrow> string \<Rightarrow> string \<Rightarrow> string \<Rightarrow> world \<Rightarrow> visit \<Rightarrow> err option \<times> world" where
  "upload_visit e endpoint bucket directory w v =
     (case v_err v of
        Some er \<Rightarrow> (Some er, w)
      | None \<Rightarrow>
          if v_isdir v then (None, w)
          else
            (case os_Open e (v_path v) w of
               Inl er \<Rightarrow> (Some er, w)
             | Inr w1 \<Rightarrow>
                 let relPath = (case filepath_Rel directory (v_path v) of
                                  Inr r \<Rightarrow> r | Inl _ \<Rightarrow> []);
                     uploadKey = filepath_ToSlash relPath;
                     uploadKey = strings_TrimPrefix uploadKey ''./''
                 in if v_size v > 0 then
                      (case PutObject e endpoint bucket uploadKey (file_content w1 (v_path v)) w1 of
                         (Some er, w2) \<Rightarrow> (Some er, file_Close (v_path v) w2)
                       | (None, w2) \<Rightarrow> (None, file_Close (v_path v) w2))
                    else (None, file_Close (v_path v) w1)))"

text \<open>
  \<^verbatim>\<open>filepath.Walk\<close> calls the function on one path after the other and stops at the
  first call that returns an error, which it returns.
\<close>

fun walk_visits :: "env \<Rightarrow> string \<Rightarrow> string \<Rightarrow> string \<Rightarrow> world \<Rightarrow> visit list \<Rightarrow> err option \<times> world" where
  "walk_visits e endpoint bucket directory w [] = (None, w)"
| "walk_visits e endpoint bucket directory w (v # vs) =
     (case upload_visit e endpoint bucket directory w v of
        (Some er, w') \<Rightarrow> (Some er, w')
      | (None, w') \<Rightarrow> walk_visits e endpoint bucket directory w' vs)"

text \<open>
  The paths \<^verbatim>\<open>filepath.Walk\<close> visits from a root: the root as it was given, then
  every directory and file below it, each directory before what it holds and the names
  of a directory in lexical order. A path that cannot be examined, or a directory that
  cannot be read, is visited with the error.
\<close>

definition lstat :: "env \<Rightarrow> world \<Rightarrow> string \<Rightarrow> err + bool \<times> int" where
  "lstat e w p =
     (case lstat_err e p of
        Some er \<Rightarrow> Inl er
      | None \<Rightarrow>
          (case map_of (files w) (filepath_Clean p) of
             Some c \<Rightarrow> Inr (False, int (length c))
           | None \<Rightarrow>
               if filepath_Clean p \<in> set (dirs w) then Inr (True, 0)
               else Inl (Err (''lstat '' @ p @ '': no such file or directory''))))"

definition visit_of :: "env \<Rightarrow> world \<Rightarrow> string \<Rightarrow> visit" where
  "visit_of e w p =
     (case lstat e w p of
        Inl er \<Rightarrow> Visit p False 0 (Some er)
      | Inr (isdir, sz) \<Rightarrow> Visit p isdir sz (if isdir then readdir_err e p else None))"

definition Walk_visits :: "env \<Rightarrow> world \<Rightarrow> string \<Rightarrow> visit list" where
  "Walk_visits e w root =
     (case visit_of e w root of
        Visit p isdir sz er \<Rightarrow>
          if isdir then
            Visit p isdir sz er #
            map (visit_of e w)
              (sort_key clean_out
                 (filter (\<lambda>q. inside root q \<and> q \<noteq> filepath_Clean root)
                    (dirs w @ map fst (files w))))
          else [Visit p isdir sz er])"

definition uploadFiles ::
  "env \<Rightarrow> string \<Rightarrow> string \<Rightarrow> string \<Rightarrow> string \<Rightarrow> string \<Rightarrow> string \<Rightarrow> world \<Rightarrow> outcome \<times> world" where
  "uploadFiles e accessKey secretKey endpoint bucket directory region w =
     (case new_session_err e endpoint of
        Some er \<Rightarrow> (Panicked (err_msg er), w)
      | None \<Rightarrow>
          (case walk_visits e endpoint bucket directory w (Walk_visits e w directory) of
             (r, w') \<Rightarrow> (Returned r, w')))"

section \<open>The pipeline\<close>

definition readConfig :: "env \<Rightarrow> string \<Rightarrow> err + Config" where
  "readConfig e file =
     (case read_file e file of
        Inl er \<Rightarrow> Inl er
      | Inr yamlFile \<Rightarrow>
          (case yaml_unmarshal e yamlFile of
             Inl er \<Rightarrow> Inl er
           | Inr config \<Rightarrow> Inr config))"

text \<open>
  \<^verbatim>\<open>main\<close>, in three parts: the removal of the staging directory and the last
  message; the upload phase with what follows it; the whole. The result is the exit
  status of the process (1 after \<^verbatim>\<open>os.Exit(1)\<close>, 2 after a panic, 0 when \<^verbatim>\<open>main\<close>
  returns) and the state it leaves.
\<close>

definition main_cleanup :: "env \<Rightarrow> Config \<Rightarrow> world \<Rightarrow> nat \<times> world" where
  "main_cleanup e config w =
     (case os_RemoveAll e (LocalDownloadPath (Source config)) w of
        Inl er \<Rightarrow> (1, println (''Error deleting files and directory: '' @ err_msg er) w)
      | Inr w' \<Rightarrow>
          (0, println ''Download and upload complete. Deleted local files and directory.'' w'))"

definition main_upload :: "env \<Rightarrow> Config \<Rightarrow> world \<Rightarrow> nat \<times> world" where
  "main_upload e config w =
     (case uploadFiles e (AccessKey (Destination config)) (SecretKey (Destination config))
             (Endpoint (Destination config)) (Bucket (Destination config))
             (LocalDownloadPath (Source config)) (Region (Destination config)) w of
        (Panicked m, w') \<Rightarrow> (2, w')
      | (Returned (Some er), w') \<Rightarrow> (1, println (''Error uploading files: '' @ err_msg er) w')
      | (Returned None, w') \<Rightarrow> main_cleanup e config w')"

definition main :: "env \<Rightarrow> world \<Rightarrow> nat \<times> world" where
  "main e w =
     (let configFile = ''config.yaml'' in
      case readConfig e configFile of
        Inl er \<Rightarrow> (1, println (''Error reading config file: '' @ err_msg er) w)
      | Inr config \<Rightarrow>
          (case os_MkdirAll e (LocalDownloadPath (Source config)) w of
             Inl er \<Rightarrow> (1, println (''Error creating download directory: '' @ err_msg er) w)
           | Inr w1 \<Rightarrow>
               (case downloadFiles e (AccessKey (Source config)) (SecretKey (Source config))
                       (Endpoint (Source config)) (Bucket (Source config))
                       (LocalDownloadPath (Source config)) (Region (Source config)) w1 of
                  (Panicked m, w2) \<Rightarrow> (2, w2)
                | (Returned (Some er), w2) \<Rightarrow>
                    (1, println (''Error downloading files: '' @ err_msg er) w2)
                | (Returned None, w2) \<Rightarrow> main_upload e config w2)))"

section \<open>Vocabulary for the properties\<close>

text \<open>
  What the environment lets happen to one entry of the listing: the directory of its
  local path can be made; the object can be fetched, and with which body; its local
  file is created (the entry has a positive size and everything before the copy
  succeeds); the entry is downloaded (its file is created and the copy succeeds); and
  the bytes the copy leaves in the file.
\<close>

definition mkdir_ok :: "env \<Rightarrow> string \<Rightarrow> s3_Object \<Rightarrow> bool" where
  "mkdir_ok e localPath object =
     (mkdir_all_err e (filepath_Dir (filepath_Join localPath (Key object))) = None)"

definition fetch_ok :: "env \<Rightarrow> string \<Rightarrow> string \<Rightarrow> s3_Object \<Rightarrow> bool" where
  "fetch_ok e endpoint bucket object =
     (case get_object e endpoint bucket (Key object) of Inr _ \<Rightarrow> True | Inl _ \<Rightarrow> False)"

definition fetched_body :: "env \<Rightarrow> string \<Rightarrow> string \<Rightarrow> s3_Object \<Rightarrow> bytes" where
  "fetched_body e endpoint bucket object =
     (case get_object e endpoint bucket (Key object) of Inr body \<Rightarrow> body | Inl _ \<Rightarrow> [])"

definition creates_file :: "env \<Rightarrow> string \<Rightarrow> string \<Rightarrow> string \<Rightarrow> s3_Object \<Rightarrow> bool" where
  "creates_file e endpoint bucket localPath object =
     (mkdir_ok e localPath object \<and> fetch_ok e endpoint bucket object \<and> Size object > 0 \<and>
      create_err e (filepath_Join localPath (Key object)) = None)"

definition downloaded :: "env \<Rightarrow> string \<Rightarrow> string \<Rightarrow> string \<Rightarrow> s3_Object \<Rightarrow> bool" where
  "downloaded e endpoint bucket localPath object =
     (creates_file e endpoint bucket localPath object \<and>
      copy_err e (filepath_Join localPath (Key object)) = None)"

definition written_bytes :: "env \<Rightarrow> string \<Rightarrow> string \<Rightarrow> string \<Rightarrow> s3_Object \<Rightarrow> bytes" where
  "written_bytes e endpoint bucket localPath object =
     (case copy_err e (filepath_Join localPath (Key object)) of
        None \<Rightarrow> fetched_body e endpoint bucket object
      | Some (n, er) \<Rightarrow> take n (fetched_body e endpoint bucket object))"

text \<open>
  The file on the local disk that belongs to an entry: the cleaned form of the path
  \<^verbatim>\<open>localFilePath\<close> that the loop computes for it.
\<close>

definition local_file :: "string \<Rightarrow> s3_Object \<Rightarrow> string" where
  "local_file localPath object = filepath_Clean (filepath_Join localPath (Key object))"

text \<open>
  The entries the loop of \<^verbatim>\<open>downloadFiles\<close> runs over: those of the one answer to
  the one listing request.
\<close>

definition listed :: "env \<Rightarrow> string \<Rightarrow> string \<Rightarrow> s3_Object list" where
  "listed e endpoint bucket = take (max_keys e) (bucket_objects e endpoint bucket)"

text \<open>
  A visit on which the function passed to the walk sends a \<^verbatim>\<open>PutObject\<close> request:
  a regular file of positive size that was reached without error and could be opened.
\<close>

definition sends :: "env \<Rightarrow> visit \<Rightarrow> bool" where
  "sends e v = (v_err v = None \<and> \<not> v_isdir v \<and> open_err e (v_path v) = None \<and> v_size v > 0)"

definition put_of :: "string \<Rightarrow> world \<Rightarrow> visit \<Rightarrow> string \<times> bytes" where
  "put_of directory w v = (uploadKey_of directory (v_path v), file_content w (v_path v))"

definition visit_fails :: "env \<Rightarrow> string \<Rightarrow> string \<Rightarrow> string \<Rightarrow> visit \<Rightarrow> err option" where
  "visit_fails e endpoint bucket directory v =
     (case v_err v of
        Some er \<Rightarrow> Some er
      | None \<Rightarrow>
          if v_isdir v then None
          else (case open_err e (v_path v) of
                  Some er \<Rightarrow> Some er
                | None \<Rightarrow>
                    if v_size v > 0
                    then put_object_err e endpoint bucket (uploadKey_of directory (v_path v))
                    else None))"

section \<open>Example runs\<close>

text \<open>
  A configuration, an environment in which no call fails and the source bucket holds
  the given keys and bodies (each listed with the length of its body as its size), and
  a state with nothing in it but the working directory.
\<close>

definition example_config :: Config where
  "example_config =
     \<lparr>Source = \<lparr>AccessKey = ''ak1'', SecretKey = ''sk1'', Endpoint = ''src'', Bucket = ''in'',
                 LocalDownloadPath = ''./staging'', Region = ''r1''\<rparr>,
      Destination = \<lparr>AccessKey = ''ak2'', SecretKey = ''sk2'', Endpoint = ''dst'', Bucket = ''out'',
                      LocalDownloadPath = [], Region = ''r2''\<rparr>\<rparr>"

definition example_env :: "(string \<times> bytes) list \<Rightarrow> env" where
  "example_env kvs =
     \<lparr>read_file = (\<lambda>_. Inr ''yaml''),
      yaml_unmarshal = (\<lambda>_. Inr example_config),
      new_session_err = (\<lambda>_. None),
      list_objects_err = (\<lambda>_ _. None),
      bucket_objects = (\<lambda>_ _. map (\<lambda>(k, c). \<lparr>Key = k, Size = int (length c)\<rparr>) kvs),
      max_keys = 1000,
      get_object = (\<lambda>_ _ k. case map_of kvs k of Some c \<Rightarrow> Inr c | None \<Rightarrow> Inl (Err ''NoSuchKey'')),
      put_object_err = (\<lambda>_ _ _. None),
      mkdir_all_err = (\<lambda>_. None),
      create_err = (\<lambda>_. None),
      copy_err = (\<lambda>_. None),
      lstat_err = (\<lambda>_. None),
      readdir_err = (\<lambda>_. None),
      open_err = (\<lambda>_. None),
      remove_all_err = (\<lambda>_. None)\<rparr>"

definition empty_world :: world where
  "empty_world =
     \<lparr>files = [], dirs = [''.''], handles = [], deferred = [], gets = [], puts = [], stdout = []\<rparr>"

text \<open>A bucket of three objects behind a service whose listing page holds two.\<close>

definition paged_env :: env where
  "paged_env = (example_env [(''a'', ''1''), (''b'', ''2''), (''c'', ''3'')])\<lparr>max_keys := 2\<rparr>"

text \<open>
  One empty object whose directory cannot be made; two objects, the empty one of which
  cannot be fetched.
\<close>

definition no_mkdir_env :: env where
  "no_mkdir_env = (example_env [(''d/x'', [])])\<lparr>mkdir_all_err := (\<lambda>_. Some (Err ''permission denied''))\<rparr>"

definition fetch_fails_env :: env where
  "fetch_fails_env =
     (example_env [(''a'', ''1''), (''z'', [])])
       \<lparr>get_object := (\<lambda>endpoint bucket k.
          if k = ''z'' then Inl (Err ''timeout'')
          else get_object (example_env [(''a'', ''1''), (''z'', [])]) endpoint bucket k)\<rparr>"

text \<open>
  Three objects of which the second cannot be fetched; three objects of which the
  first two are mapped to the same local path and the third cannot be fetched; the
  state once the staging directory is made; two objects whose keys are mapped to the
  same local path. Keys that share a local path differ here by a trailing slash:
  \<^verbatim>\<open>a/b\<close> and \<^verbatim>\<open>a/b/\<close> are two objects of a bucket, each requested under its
  own key, and \<^verbatim>\<open>filepath.Join\<close> drops the trailing slash.
\<close>

definition one_fails_env :: env where
  "one_fails_env =
     (example_env [(''a'', ''11''), (''m'', ''22''), (''d/c'', ''33'')])
       \<lparr>get_object := (\<lambda>endpoint bucket k.
          if k = ''m'' then Inl (Err ''timeout'')
          else get_object (example_env [(''a'', ''11''), (''m'', ''22''), (''d/c'', ''33'')])
                 endpoint bucket k)\<rparr>"


definition staged_world :: world where
  "staged_world =
     \<lparr>files = [], dirs = [''.'', ''staging''], handles = [], deferred = [], gets = [], puts = [],
      stdout = []\<rparr>"

definition colliding_env :: env where
  "colliding_env = example_env [(''a/b'', ''111''), (''a/b/'', ''2222'')]"

text \<open>
  A staging directory of three files, and destinations that refuse the key \<^verbatim>\<open>b\<close>, or
  where the empty file \<^verbatim>\<open>staging/b\<close> cannot be opened.
\<close>

definition three_files_world :: world where
  "three_files_world =
     \<lparr>files = [(''staging/a'', ''1''), (''staging/b'', ''2''), (''staging/c'', ''3'')],
      dirs = [''.'', ''staging''], handles = [], deferred = [], gets = [], puts = [], stdout = []\<rparr>"

definition put_fails_env :: env where
  "put_fails_env =
     (example_env [])\<lparr>put_object_err := (\<lambda>_ _ k. if k = ''b'' then Some (Err ''denied'') else None)\<rparr>"

definition empty_file_world :: world where
  "empty_file_world =
     \<lparr>files = [(''staging/a'', ''1''), (''staging/b'', []), (''staging/c'', ''3'')],
      dirs = [''.'', ''staging''], handles = [], deferred = [], gets = [], puts = [], stdout = []\<rparr>"

definition open_fails_env :: env where
  "open_fails_env =
     (example_env [])\<lparr>open_err := (\<lambda>p. if p = ''staging/b'' then Some (Err ''locked'') else None)\<rparr>"

text \<open>
  The scenario of the specification: \<^verbatim>\<open>a.txt\<close> of 5 bytes, the empty \<^verbatim>\<open>dir/b.txt\<close>,
  and \<^verbatim>\<open>dir/c.txt\<close> of 3 bytes; and the same where the staging directory cannot be
  removed.
\<close>

definition scenario_env :: env where
  "scenario_env = example_env [(''a.txt'', ''hello''), (''dir/b.txt'', []), (''dir/c.txt'', ''xyz'')]"

definition no_remove_env :: env where
  "no_remove_env = scenario_env\<lparr>remove_all_err := (\<lambda>_. Some (Err ''busy''))\<rparr>"


text \<open>One object of 5 bytes whose copy to the local file stops after 2 bytes.\<close>

definition copy_fails_env :: env where
  "copy_fails_env =
     (example_env [(''a.txt'', ''hello'')])
       \<lparr>copy_err := (\<lambda>p. if p = ''staging/a.txt'' then Some (2, Err ''reset'') else None)\<rparr>"

section \<open>Properties of the path functions\<close>

subsection \<open>Splitting and joining\<close>

lemma split_sep_nonempty: "split_sep s \<noteq> []"
  by (induction s) (auto split: list.splits)

lemma split_sep_Cons:
  "split_sep (c # cs) =
     (if c = CHR ''/'' then [] # split_sep cs
      else (c # hd (split_sep cs)) # tl (split_sep cs))"
  using split_sep_nonempty [of cs] by (cases "split_sep cs") auto

declare split_sep.simps(2) [simp del]
declare split_sep_Cons [simp]

lemma split_sep_no_sep: "CHR ''/'' \<notin> set s \<Longrightarrow> split_sep s = [s]"
  by (induction s) auto

lemma split_sep_append: "split_sep (a @ CHR ''/'' # b) = split_sep a @ split_sep b"
proof (induction a)
  case Nil
  then show ?case by simp
next
  case (Cons c a)
  then show ?case using split_sep_nonempty [of a] by (cases "split_sep a") auto
qed

lemma split_sep_elem: "s \<in> set (split_sep p) \<Longrightarrow> CHR ''/'' \<notin> set s"
proof (induction p arbitrary: s)
  case Nil
  then show ?case by simp
next
  case (Cons c p)
  then show ?case
    using split_sep_nonempty [of p]
    by (cases "split_sep p") (auto split: if_splits)
qed

lemma join_split: "join_sep (split_sep s) = s"
proof (induction s)
  case Nil
  then show ?case by simp
next
  case (Cons c s)
  show ?case
  proof (cases "split_sep s")
    case Nil
    then show ?thesis using split_sep_nonempty by blast
  next
    case (Cons x xs)
    with Cons.IH show ?thesis by (cases xs) auto
  qed
qed

lemma split_join:
  "ss \<noteq> [] \<Longrightarrow> \<forall>s\<in>set ss. CHR ''/'' \<notin> set s \<Longrightarrow> split_sep (join_sep ss) = ss"
proof (induction ss rule: join_sep.induct)
  case 1
  then show ?case by simp
next
  case (2 s)
  then show ?case by (simp add: split_sep_no_sep)
next
  case (3 s t ss)
  then show ?case by (simp add: split_sep_append split_sep_no_sep)
qed

lemma foldl_clean_step_normal:
  "list_all normal_elem ks \<Longrightarrow> foldl (clean_step r) out ks = out @ ks"
  by (induction ks arbitrary: out) (auto simp: clean_step_def normal_elem_def)


subsection \<open>The elements Clean keeps\<close>

lemma ok_out_Nil: "ok_out r []"
  unfolding ok_out_def by (rule exI [of _ 0], rule exI [of _ "[]"]) simp

lemma ok_out_step:
  assumes "ok_out r out" and "CHR ''/'' \<notin> set seg"
  shows "ok_out r (clean_step r out seg)"
proof -
  from assms(1) obtain n ns where out: "out = replicate n ''..'' @ ns"
    and ns: "list_all normal_elem ns" "\<forall>s\<in>set ns. CHR ''/'' \<notin> set s" and r: "r \<longrightarrow> n = 0"
    unfolding ok_out_def by blast
  consider (skip) "seg = [] \<or> seg = ''.''" | (dd) "seg = ''..''" | (norm) "normal_elem seg"
    unfolding normal_elem_def by blast
  then show ?thesis
  proof cases
    case skip
    then show ?thesis using assms(1) by (auto simp: clean_step_def)
  next
    case norm
    then have "clean_step r out seg = replicate n ''..'' @ (ns @ [seg])"
      by (auto simp: clean_step_def normal_elem_def out)
    moreover have "list_all normal_elem (ns @ [seg])" using ns norm by simp
    moreover have "\<forall>s\<in>set (ns @ [seg]). CHR ''/'' \<notin> set s" using ns assms(2) by auto
    ultimately show ?thesis unfolding ok_out_def using r by blast
  next
    case dd
    show ?thesis
    proof (cases "ns = []")
      case False
      then have l: "last out \<noteq> ''..''" "out \<noteq> []"
        using ns(1) by (auto simp: out normal_elem_def list_all_iff)
      have "clean_step r out seg = replicate n ''..'' @ butlast ns"
        using l dd False by (simp add: clean_step_def out butlast_append)
      moreover have "list_all normal_elem (butlast ns)"
        using ns(1) by (auto simp: list_all_iff dest: in_set_butlastD)
      moreover have "\<forall>s\<in>set (butlast ns). CHR ''/'' \<notin> set s"
        using ns(2) by (auto dest: in_set_butlastD)
      ultimately show ?thesis unfolding ok_out_def using r by blast
    next
      case True
      show ?thesis
      proof (cases r)
        case True
        with r \<open>ns = []\<close> have "out = []" by (simp add: out)
        then show ?thesis using dd True by (simp add: clean_step_def ok_out_Nil)
      next
        case False
        have "out = [] \<or> last out = ''..''" using True by (cases n) (auto simp: out)
        then have "clean_step r out seg = replicate (Suc n) ''..'' @ []"
          using dd False True by (auto simp: clean_step_def out replicate_append_same)
        moreover have "list_all normal_elem []" "\<forall>s\<in>set ([]::string list). CHR ''/'' \<notin> set s"
          by simp_all
        ultimately show ?thesis unfolding ok_out_def using False by blast
      qed
    qed
  qed
qed

lemma ok_out_foldl:
  "ok_out r out \<Longrightarrow> \<forall>s\<in>set segs. CHR ''/'' \<notin> set s \<Longrightarrow> ok_out r (foldl (clean_step r) out segs)"
  by (induction segs arbitrary: out) (auto simp: ok_out_step)

lemma ok_out_clean_out: "ok_out (path_rooted p) (clean_out p)"
  unfolding clean_out_def by (rule ok_out_foldl) (auto simp: ok_out_Nil dest: split_sep_elem)

lemma foldl_clean_step_dotdots:
  "\<not> r \<Longrightarrow> foldl (clean_step r) (replicate m ''..'') (replicate n ''..'') = replicate (m + n) ''..''"
proof (induction n arbitrary: m)
  case 0
  then show ?case by simp
next
  case (Suc n)
  have "clean_step r (replicate m ''..'') ''..'' = replicate (Suc m) ''..''"
    using Suc.prems by (cases m) (auto simp: clean_step_def replicate_append_same)
  then show ?case using Suc.IH [OF Suc.prems, of "Suc m"] by simp
qed

lemma ok_out_rebuild: "ok_out r out \<Longrightarrow> foldl (clean_step r) [] out = out"
proof -
  assume "ok_out r out"
  then obtain n ns where out: "out = replicate n ''..'' @ ns"
    and ns: "list_all normal_elem ns" and r: "r \<longrightarrow> n = 0"
    unfolding ok_out_def by blast
  have "foldl (clean_step r) [] (replicate n ''..'') = replicate n ''..''"
  proof (cases r)
    case True
    then show ?thesis using r by simp
  next
    case False
    then show ?thesis using foldl_clean_step_dotdots [of r 0 n] by simp
  qed
  then show ?thesis by (simp add: out foldl_clean_step_normal [OF ns])
qed

lemma ok_out_no_sep: "ok_out r out \<Longrightarrow> s \<in> set out \<Longrightarrow> CHR ''/'' \<notin> set s"
  unfolding ok_out_def by auto

lemma ok_out_elem: "ok_out r out \<Longrightarrow> s \<in> set out \<Longrightarrow> s \<noteq> [] \<and> s \<noteq> ''.''"
  unfolding ok_out_def by (auto simp: list_all_iff normal_elem_def)

lemma ok_out_append:
  "ok_out r out \<Longrightarrow> list_all normal_elem ks \<Longrightarrow> \<forall>s\<in>set ks. CHR ''/'' \<notin> set s \<Longrightarrow>
   ok_out r (out @ ks)"
  unfolding ok_out_def
  apply (elim exE conjE)
  subgoal for n ns
    by (rule exI [of _ n], rule exI [of _ "ns @ ks"]) auto
  done


lemma Clean_render: "filepath_Clean p = render (path_rooted p) (clean_out p)"
  by (simp add: filepath_Clean_def)

lemma join_sep_hd: "ss \<noteq> [] \<Longrightarrow> hd ss \<noteq> [] \<Longrightarrow> join_sep ss \<noteq> [] \<and> hd (join_sep ss) = hd (hd ss)"
  by (induction ss rule: join_sep.induct) auto

lemma ok_out_join_hd:
  assumes "ok_out r out" "out \<noteq> []"
  shows "join_sep out \<noteq> []" "hd (join_sep out) \<noteq> CHR ''/''"
proof -
  have h: "hd out \<in> set out" using assms(2) by simp
  then have ne: "hd out \<noteq> []" using ok_out_elem [OF assms(1)] by blast
  then show "join_sep out \<noteq> []" using join_sep_hd [OF assms(2)] by blast
  have "hd (hd out) \<in> set (hd out)" using ne by simp
  then have "hd (hd out) \<noteq> CHR ''/''" using ok_out_no_sep [OF assms(1) h] by metis
  then show "hd (join_sep out) \<noteq> CHR ''/''" using join_sep_hd [OF assms(2) ne] by simp
qed

lemma ok_out_split_join: "ok_out r out \<Longrightarrow> out \<noteq> [] \<Longrightarrow> split_sep (join_sep out) = out"
  by (rule split_join) (auto dest: ok_out_no_sep)

text \<open>What Clean returns is a fixed point of Clean, read back to the same elements.\<close>

lemma render_rooted: "ok_out r out \<Longrightarrow> path_rooted (render r out) = r"
  using ok_out_join_hd [of r out]
  by (auto simp: render_def path_rooted_def)

lemma render_clean_out:
  assumes "ok_out r out"
  shows "clean_out (render r out) = out"
proof (cases "out = []")
  case True
  then show ?thesis
    by (cases r) (simp_all add: clean_out_def render_def path_rooted_def clean_step_def)
next
  case False
  have rt: "path_rooted (render r out) = r" by (rule render_rooted [OF assms])
  have sj: "split_sep (join_sep out) = out" by (rule ok_out_split_join [OF assms False])
  have rb: "foldl (clean_step r) [] out = out" by (rule ok_out_rebuild [OF assms])
  show ?thesis
  proof (cases r)
    case True
    then show ?thesis
      unfolding clean_out_def rt using sj rb by (simp add: render_def clean_step_def)
  next
    case False
    then show ?thesis
      unfolding clean_out_def rt using sj rb \<open>out \<noteq> []\<close> by (simp add: render_def)
  qed
qed

lemma Clean_render_id: "ok_out r out \<Longrightarrow> filepath_Clean (render r out) = render r out"
  by (simp add: Clean_render render_rooted render_clean_out)

lemma Clean_idem: "filepath_Clean (filepath_Clean p) = filepath_Clean p"
  by (simp add: Clean_render [of p] Clean_render_id ok_out_clean_out)

lemma clean_key_elems:
  assumes "clean_key k"
  shows "list_all normal_elem (split_sep k)" "\<forall>s\<in>set (split_sep k). CHR ''/'' \<notin> set s"
    "k \<noteq> []" "\<not> path_rooted k"
proof -
  show a: "list_all normal_elem (split_sep k)" using assms by (simp add: clean_key_def)
  show "\<forall>s\<in>set (split_sep k). CHR ''/'' \<notin> set s" by (auto dest: split_sep_elem)
  show "k \<noteq> []" using a by (auto simp: normal_elem_def)
  show "\<not> path_rooted k" using a by (cases k) (auto simp: path_rooted_def normal_elem_def)
qed

lemma Join_clean_key:
  assumes "clean_key k"
  shows "filepath_Join d k = render (path_rooted d) (clean_out d @ split_sep k)"
proof (cases "d = []")
  case True
  have "clean_out k = split_sep k"
    using clean_key_elems(1) [OF assms] foldl_clean_step_normal [of "split_sep k" _ "[]"]
    by (simp add: clean_out_def)
  then show ?thesis
    using True clean_key_elems(3,4) [OF assms]
    by (simp add: filepath_Join_def Clean_render path_rooted_def clean_out_def clean_step_def)
next
  case False
  have r: "path_rooted (d @ CHR ''/'' # k) = path_rooted d"
    using False by (cases d) (auto simp: path_rooted_def)
  have "clean_out (d @ CHR ''/'' # k) = clean_out d @ split_sep k"
    unfolding clean_out_def r
    by (simp add: split_sep_append foldl_clean_step_normal [OF clean_key_elems(1) [OF assms]])
  then show ?thesis using False by (simp add: filepath_Join_def Clean_render r)
qed

lemma strip_common_Nil: "strip_common [] ys = ([], ys)"
  by (cases ys) simp_all

lemma strip_common_prefix: "strip_common xs (xs @ ys) = ([], ys)"
  by (induction xs) (simp_all add: strip_common_Nil)


lemma render_append_neq:
  assumes "ok_out r out" "ks \<noteq> []" "list_all normal_elem ks" "\<forall>s\<in>set ks. CHR ''/'' \<notin> set s"
  shows "render r (out @ ks) \<noteq> render r out"
proof
  assume eq: "render r (out @ ks) = render r out"
  have ok: "ok_out r (out @ ks)" by (rule ok_out_append [OF assms(1,3,4)])
  have "clean_out (render r (out @ ks)) = out @ ks" by (rule render_clean_out [OF ok])
  moreover have "clean_out (render r out) = out" by (rule render_clean_out [OF assms(1)])
  ultimately show False using eq assms(2) by simp
qed

lemma path_elems_render:
  assumes "ok_out r out" "out \<noteq> []"
  shows "path_elems (render r out) = (if r then [] # out else out)"
proof -
  have sj: "split_sep (join_sep out) = out" by (rule ok_out_split_join [OF assms])
  note h = ok_out_join_hd [OF assms]
  show ?thesis
  proof (cases r)
    case True
    then show ?thesis using sj h by (simp add: path_elems_def render_def)
  next
    case False
    have "join_sep out \<noteq> ''/''" using h by auto
    then show ?thesis using False sj h assms(2) by (simp add: path_elems_def render_def)
  qed
qed

lemma render_not_dot:
  assumes "ok_out r out" "out \<noteq> []"
  shows "render r out \<noteq> ''.''"
proof
  assume eq: "render r out = ''.''"
  have "clean_out (render r out) = out" by (rule render_clean_out [OF assms(1)])
  moreover have "clean_out ''.'' = []"
    by (simp add: clean_out_def path_rooted_def clean_step_def)
  ultimately show False using eq assms(2) by simp
qed

lemma Rel_Join_clean_key:
  assumes k: "clean_key k"
  shows "filepath_Rel d (filepath_Join d k) = Inr k"
proof -
  define r where "r = path_rooted d"
  define out where "out = clean_out d"
  define ks where "ks = split_sep k"
  have ok: "ok_out r out" unfolding r_def out_def by (rule ok_out_clean_out)
  have ks: "list_all normal_elem ks" "\<forall>s\<in>set ks. CHR ''/'' \<notin> set s" "ks \<noteq> []"
    unfolding ks_def using clean_key_elems(1,2) [OF k] split_sep_nonempty by auto
  have okk: "ok_out r (out @ ks)" by (rule ok_out_append [OF ok ks(1,2)])
  have ne: "out @ ks \<noteq> []" using ks(3) by simp
  have base: "filepath_Clean d = render r out" by (simp add: Clean_render r_def out_def)
  have j: "filepath_Join d k = render r (out @ ks)"
    by (simp add: Join_clean_key [OF k] r_def out_def ks_def)
  have targ: "filepath_Clean (render r (out @ ks)) = render r (out @ ks)"
    by (rule Clean_render_id [OF okk])
  have neq: "render r (out @ ks) \<noteq> render r out"
    by (rule render_append_neq [OF ok ks(3,1,2)])
  have tslash: "(render r (out @ ks) \<noteq> [] \<and> hd (render r (out @ ks)) = CHR ''/'') = r"
    using render_rooted [OF okk] by (simp add: path_rooted_def)
  have telems: "path_elems (render r (out @ ks)) = (if r then [] # out @ ks else out @ ks)"
    using path_elems_render [OF okk ne] by simp
  have jk: "join_sep ks = k" by (simp add: ks_def join_split)
  show ?thesis
  proof (cases "out = []")
    case True
    show ?thesis
    proof (cases r)
      case True
      have "render r out = ''/''" using True \<open>out = []\<close> by (simp add: render_def)
      then show ?thesis
        unfolding filepath_Rel_def rel_cleaned_def j base targ Let_def
        using neq tslash telems True \<open>out = []\<close> jk
        by (simp add: path_elems_def strip_common_Nil)
    next
      case False
      have "render r out = ''.''" using False \<open>out = []\<close> by (simp add: render_def)
      then show ?thesis
        unfolding filepath_Rel_def rel_cleaned_def j base targ Let_def
        using neq tslash telems False \<open>out = []\<close> jk
        by (simp add: path_elems_def strip_common_Nil)
    qed
  next
    case False
    have nd: "render r out \<noteq> ''.''" by (rule render_not_dot [OF ok False])
    have bslash: "(render r out \<noteq> [] \<and> hd (render r out) = CHR ''/'') = r"
      using render_rooted [OF ok] by (simp add: path_rooted_def)
    have belems: "path_elems (render r out) = (if r then [] # out else out)"
      by (rule path_elems_render [OF ok False])
    have sc: "strip_common (if r then [] # out else out) (if r then [] # out @ ks else out @ ks) = ([], ks)"
      using strip_common_prefix [of out ks] strip_common_prefix [of "[] # out" ks] by simp
    show ?thesis
      unfolding filepath_Rel_def rel_cleaned_def j base targ Let_def
      using neq nd bslash tslash belems telems sc jk by simp
  qed
qed

lemma clean_key_no_dot_slash: "clean_key k \<Longrightarrow> \<not> prefix ''./'' k"
  by (auto simp: clean_key_def prefix_def normal_elem_def)

lemma clean_out_Clean: "clean_out (filepath_Clean p) = clean_out p"
  by (simp add: Clean_render render_clean_out ok_out_clean_out)

lemma path_rooted_Clean: "path_rooted (filepath_Clean p) = path_rooted p"
  by (simp add: Clean_render render_rooted ok_out_clean_out)

lemma inside_Clean: "inside root (filepath_Clean p) = inside root p"
  by (simp add: inside_def clean_out_Clean path_rooted_Clean)

lemma inside_self: "inside p p"
  by (simp add: inside_def)




section \<open>Properties of the download phase\<close>

subsection \<open>Files as an association list\<close>

lemma map_of_write_file: "map_of (write_file p c fs) = (map_of fs)(p \<mapsto> c)"
  by (induction fs) (auto simp: fun_eq_iff)

lemma write_file_twice: "write_file p c (write_file p d fs) = write_file p c fs"
  by (induction fs) auto

lemma fst_set_write_file: "fst ` set (write_file p c fs) = insert p (fst ` set fs)"
  by (simp add: dom_map_of_conv_image_fst [symmetric] map_of_write_file)

lemma Clean_Join: "filepath_Join a b \<noteq> [] \<Longrightarrow> filepath_Clean (filepath_Join a b) = filepath_Join a b"
  by (auto simp: filepath_Join_def Clean_idem split: if_splits)

subsection \<open>One entry of the listing\<close>

lemma process_object_files:
  "files (process_object e ep b lp w object) =
     (if creates_file e ep b lp object
      then write_file (local_file lp object) (written_bytes e ep b lp object) (files w)
      else files w)"
  by (auto simp: process_object_def Let_def os_MkdirAll_def GetObject_def os_Create_def
      io_Copy_def defer_Close_def println_def creates_file_def mkdir_ok_def fetch_ok_def
      written_bytes_def fetched_body_def write_file_twice local_file_def
      split: option.splits sum.splits prod.splits)

lemma process_object_gets:
  "gets (process_object e ep b lp w object) =
     gets w @ (if mkdir_ok e lp object then [Key object] else [])"
  by (auto simp: process_object_def Let_def os_MkdirAll_def GetObject_def os_Create_def
      io_Copy_def defer_Close_def println_def mkdir_ok_def
      split: option.splits sum.splits prod.splits)

lemma process_object_handles:
  "handles (process_object e ep b lp w object) =
     (if creates_file e ep b lp object then [filepath_Join lp (Key object)] else []) @ handles w"
  by (auto simp: process_object_def Let_def os_MkdirAll_def GetObject_def os_Create_def
      io_Copy_def defer_Close_def println_def creates_file_def mkdir_ok_def fetch_ok_def
      split: option.splits sum.splits prod.splits)

lemma process_object_deferred:
  "deferred (process_object e ep b lp w object) =
     (if creates_file e ep b lp object then [filepath_Join lp (Key object)] else []) @ deferred w"
  by (auto simp: process_object_def Let_def os_MkdirAll_def GetObject_def os_Create_def
      io_Copy_def defer_Close_def println_def creates_file_def mkdir_ok_def fetch_ok_def
      split: option.splits sum.splits prod.splits)


subsection \<open>The loop over the listing\<close>

lemma download_loop_Nil: "download_loop e ep b lp w [] = w"
  by (simp add: download_loop_def)

lemma download_loop_Cons:
  "download_loop e ep b lp w (object # objects) =
     download_loop e ep b lp (process_object e ep b lp w object) objects"
  by (simp add: download_loop_def)

lemma download_loop_append:
  "download_loop e ep b lp w (xs @ ys) = download_loop e ep b lp (download_loop e ep b lp w xs) ys"
  by (simp add: download_loop_def)

lemma download_loop_gets:
  "gets (download_loop e ep b lp w objects) = gets w @ map Key (filter (mkdir_ok e lp) objects)"
  by (induction objects arbitrary: w)
    (simp_all add: download_loop_Nil download_loop_Cons process_object_gets)


lemma download_loop_handles:
  "handles (download_loop e ep b lp w objects) =
     rev (map (\<lambda>object. filepath_Join lp (Key object)) (filter (creates_file e ep b lp) objects))
     @ handles w"
  by (induction objects arbitrary: w)
    (simp_all add: download_loop_Nil download_loop_Cons process_object_handles)

lemma download_loop_deferred:
  "deferred (download_loop e ep b lp w objects) =
     rev (map (\<lambda>object. filepath_Join lp (Key object)) (filter (creates_file e ep b lp) objects))
     @ deferred w"
  by (induction objects arbitrary: w)
    (simp_all add: download_loop_Nil download_loop_Cons process_object_deferred)

lemma download_loop_files_other:
  "q \<notin> set (map (local_file lp) (filter (creates_file e ep b lp) objects)) \<Longrightarrow>
   map_of (files (download_loop e ep b lp w objects)) q = map_of (files w) q"
proof (induction objects arbitrary: w)
  case Nil
  then show ?case by (simp add: download_loop_Nil)
next
  case (Cons x xs)
  have rest: "q \<notin> set (map (local_file lp) (filter (creates_file e ep b lp) xs))"
    using Cons.prems by (auto split: if_splits)
  have here: "map_of (files (process_object e ep b lp w x)) q = map_of (files w) q"
    using Cons.prems by (auto simp: process_object_files map_of_write_file)
  show ?case unfolding download_loop_Cons using Cons.IH [OF rest] here by simp
qed



lemma download_loop_files_content:
  "distinct (map (local_file lp) objects) \<Longrightarrow> object \<in> set objects \<Longrightarrow>
   creates_file e ep b lp object \<Longrightarrow>
   map_of (files (download_loop e ep b lp w objects)) (local_file lp object)
     = Some (written_bytes e ep b lp object)"
proof (induction objects arbitrary: w)
  case Nil
  then show ?case by simp
next
  case (Cons x xs)
  show ?case
  proof (cases "object = x")
    case True
    have "local_file lp x \<notin> set (map (local_file lp) (filter (creates_file e ep b lp) xs))"
      using Cons.prems(1) by auto
    then have "map_of (files (download_loop e ep b lp (process_object e ep b lp w x) xs)) (local_file lp x)
        = map_of (files (process_object e ep b lp w x)) (local_file lp x)"
      by (rule download_loop_files_other)
    then show ?thesis
      using Cons.prems(3) True by (simp add: download_loop_Cons process_object_files map_of_write_file)
  next
    case False
    then show ?thesis using Cons by (simp add: download_loop_Cons)
  qed
qed

lemma fold_remove1_append: "fold remove1 ds (ds @ hs) = hs"
  by (induction ds) simp_all

lemma run_deferred_fields:
  "files (run_deferred w) = files w" "gets (run_deferred w) = gets w"
  "puts (run_deferred w) = puts w" "dirs (run_deferred w) = dirs w"
  "stdout (run_deferred w) = stdout w" "deferred (run_deferred w) = []"
  "handles (run_deferred w) = fold remove1 (deferred w) (handles w)"
  by (simp_all add: run_deferred_def)

lemma process_object_fetch_error:
  assumes "mkdir_ok e lp object" and "get_object e ep b (Key object) = Inl er"
  shows "stdout (process_object e ep b lp w object) =
           stdout w @ [''Error getting object: '' @ Key object @ '' '' @ err_msg er]"
    and "files (process_object e ep b lp w object) = files w"
  using assms
  by (auto simp: process_object_def Let_def os_MkdirAll_def GetObject_def println_def mkdir_ok_def
      split: option.splits)

section \<open>Properties of the upload phase\<close>

subsection \<open>The walk\<close>

lemma upload_visit_eq:
  "upload_visit e ep b d w v =
     (visit_fails e ep b d v,
      if sends e v then w\<lparr>puts := puts w @ [put_of d w v]\<rparr> else w)"
  by (auto simp: upload_visit_def visit_fails_def sends_def put_of_def os_Open_def PutObject_def
      file_Close_def file_content_def uploadKey_of_def Let_def
      split: option.splits sum.splits prod.splits)

lemma put_of_puts_update [simp]: "put_of d (w\<lparr>puts := ps\<rparr>) v = put_of d w v"
  by (simp add: put_of_def file_content_def)

lemma walk_visits_ok:
  "\<forall>v\<in>set vs. visit_fails e ep b d v = None \<Longrightarrow>
   walk_visits e ep b d w vs = (None, w\<lparr>puts := puts w @ map (put_of d w) (filter (sends e) vs)\<rparr>)"
proof (induction vs arbitrary: w)
  case Nil
  then show ?case by simp
next
  case (Cons v vs)
  then have ih: "\<And>w. walk_visits e ep b d w vs =
      (None, w\<lparr>puts := puts w @ map (put_of d w) (filter (sends e) vs)\<rparr>)"
    by simp
  from Cons.prems have "visit_fails e ep b d v = None" by simp
  then show ?case by (simp add: upload_visit_eq ih)
qed

lemma walk_visits_append:
  "walk_visits e ep b d w (xs @ ys) =
     (case walk_visits e ep b d w xs of
        (Some er, w') \<Rightarrow> (Some er, w')
      | (None, w') \<Rightarrow> walk_visits e ep b d w' ys)"
  by (induction xs arbitrary: w) (auto split: prod.splits option.splits)

lemma walk_visits_fail:
  assumes "\<forall>v\<in>set pre. visit_fails e ep b d v = None" and "visit_fails e ep b d v = Some er"
  shows "walk_visits e ep b d w (pre @ v # post) =
     (Some er, w\<lparr>puts := puts w @ map (put_of d w) (filter (sends e) (pre @ [v]))\<rparr>)"
  by (simp add: walk_visits_append walk_visits_ok [OF assms(1)] upload_visit_eq assms(2))

lemma walk_visits_fields:
  "files (snd (walk_visits e ep b d w vs)) = files w"
  "handles (snd (walk_visits e ep b d w vs)) = handles w"
  "dirs (snd (walk_visits e ep b d w vs)) = dirs w"
  "gets (snd (walk_visits e ep b d w vs)) = gets w"
  "stdout (snd (walk_visits e ep b d w vs)) = stdout w"
  by (induction vs arbitrary: w; simp add: upload_visit_eq split: option.splits)+






section \<open>Properties of the whole phases\<close>

lemma local_file_Clean [simp]: "filepath_Clean (local_file lp object) = local_file lp object"
  by (simp add: local_file_def Clean_idem)

lemma downloadFiles_ok:
  "new_session_err e ep = None \<Longrightarrow> list_objects_err e ep b = None \<Longrightarrow>
   downloadFiles e ak sk ep b lp rg w =
     (Returned None, run_deferred (download_loop e ep b lp (w\<lparr>deferred := []\<rparr>) (listed e ep b)))"
  by (simp add: downloadFiles_def ListObjects_def listed_def)

lemma downloadFiles_gets:
  "new_session_err e ep = None \<Longrightarrow> list_objects_err e ep b = None \<Longrightarrow>
   gets (snd (downloadFiles e ak sk ep b lp rg w)) =
     gets w @ map Key (filter (mkdir_ok e lp) (listed e ep b))"
  by (simp add: downloadFiles_ok run_deferred_fields download_loop_gets)

lemma downloadFiles_files:
  "new_session_err e ep = None \<Longrightarrow> list_objects_err e ep b = None \<Longrightarrow>
   files (snd (downloadFiles e ak sk ep b lp rg w)) =
     files (download_loop e ep b lp (w\<lparr>deferred := []\<rparr>) (listed e ep b))"
  by (simp add: downloadFiles_ok run_deferred_fields)



lemma written_bytes_downloaded:
  "downloaded e ep b lp object \<Longrightarrow> written_bytes e ep b lp object = fetched_body e ep b object"
  by (simp add: downloaded_def written_bytes_def)


lemma not_creating_path:
  assumes "distinct (map (local_file lp) objects)" "object \<in> set objects"
    "\<not> creates_file e ep b lp object"
  shows "local_file lp object \<notin> set (map (local_file lp) (filter (creates_file e ep b lp) objects))"
proof
  assume "local_file lp object \<in> set (map (local_file lp) (filter (creates_file e ep b lp) objects))"
  then obtain o' where o': "o' \<in> set objects" "creates_file e ep b lp o'"
    "local_file lp o' = local_file lp object"
    by auto
  from assms(1) have "inj_on (local_file lp) (set objects)" by (simp add: distinct_map)
  with o'(1,3) assms(2) have "o' = object" by (auto dest: inj_onD)
  with o'(2) assms(3) show False by simp
qed

lemma uploadFiles_fail:
  assumes "new_session_err e ep = None"
    and "Walk_visits e w d = pre @ v # post"
    and "\<forall>u\<in>set pre. visit_fails e ep b d u = None"
    and "visit_fails e ep b d v = Some er"
  shows "uploadFiles e ak sk ep b d rg w =
           (Returned (Some er),
            w\<lparr>puts := puts w @ map (put_of d w) (filter (sends e) (pre @ [v]))\<rparr>)"
  using assms(1,2) walk_visits_fail [OF assms(3,4), of w post]
  by (simp add: uploadFiles_def)

lemma main_upload_fail:
  assumes "uploadFiles e (AccessKey (Destination config)) (SecretKey (Destination config))
             (Endpoint (Destination config)) (Bucket (Destination config))
             (LocalDownloadPath (Source config)) (Region (Destination config)) w
           = (Returned (Some er), w')"
  shows "main_upload e config w = (1, println (''Error uploading files: '' @ err_msg er) w')"
  using assms by (simp add: main_upload_def)

lemma sends_le_files: "length (filter (sends e) vs) \<le> length (filter (\<lambda>u. \<not> v_isdir u) vs)"
  by (induction vs) (auto simp: sends_def)

lemma main_to_cleanup:
  assumes "readConfig e ''config.yaml'' = Inr config"
    and "os_MkdirAll e (LocalDownloadPath (Source config)) w = Inr w1"
    and "downloadFiles e (AccessKey (Source config)) (SecretKey (Source config))
           (Endpoint (Source config)) (Bucket (Source config))
           (LocalDownloadPath (Source config)) (Region (Source config)) w1 = (Returned None, w2)"
    and "uploadFiles e (AccessKey (Destination config)) (SecretKey (Destination config))
           (Endpoint (Destination config)) (Bucket (Destination config))
           (LocalDownloadPath (Source config)) (Region (Destination config)) w2 = (Returned None, w3)"
  shows "main e w = main_cleanup e config w3"
  using assms by (simp add: main_def main_upload_def)

lemma os_RemoveAll_gone:
  assumes "os_RemoveAll e p w = Inr w'"
  shows "filepath_Clean p \<notin> set (dirs w')"
    and "\<forall>q\<in>set (dirs w') \<union> fst ` set (files w'). \<not> inside p q"
proof -
  from assms have w': "w' = w\<lparr>files := filter (\<lambda>(q, c). \<not> inside p q) (files w),
                              dirs := filter (\<lambda>q. \<not> inside p q) (dirs w)\<rparr>"
    by (auto simp: os_RemoveAll_def split: option.splits)
  show "\<forall>q\<in>set (dirs w') \<union> fst ` set (files w'). \<not> inside p q"
    by (auto simp: w')
  then show "filepath_Clean p \<notin> set (dirs w')"
    using inside_Clean [of p p] inside_self [of p] by auto
qed








section \<open>The claims\<close>

text \<open>
  \<^bold>\<open>C1\<close> (as amended). When the listing request succeeds, the download phase runs over
  the entries of the one answer to it, the first page of the bucket: it requests, in
  order and once each, the objects among the first \<open>max_keys\<close> of the bucket whose
  directory could be made. The page holds \<open>max_keys\<close> entries or the whole bucket,
  whichever is less; it is the whole bucket when the bucket is no longer than a page,
  and it repeats no key when the bucket repeats none.
\<close>

theorem download_lists_one_page:
  assumes "new_session_err e endpoint = None" and "list_objects_err e endpoint bucket = None"
  shows "gets (snd (downloadFiles e accessKey secretKey endpoint bucket localPath region w)) =
           gets w @ map Key (filter (mkdir_ok e localPath)
                               (take (max_keys e) (bucket_objects e endpoint bucket)))
       \<and> length (listed e endpoint bucket) = min (max_keys e) (length (bucket_objects e endpoint bucket))
       \<and> (length (bucket_objects e endpoint bucket) \<le> max_keys e \<longrightarrow>
            listed e endpoint bucket = bucket_objects e endpoint bucket)
       \<and> (distinct (map Key (bucket_objects e endpoint bucket)) \<longrightarrow>
            distinct (map Key (listed e endpoint bucket)))"
  using assms
  by (auto simp: downloadFiles_gets listed_def min_def distinct_take take_map [symmetric])

theorem download_lists_one_page_witness:
  "new_session_err (example_env [(''a'', ''1''), (''b'', ''2'')]) ''src'' = None \<and>
   list_objects_err (example_env [(''a'', ''1''), (''b'', ''2'')]) ''src'' ''in'' = None \<and>
   gets (snd (downloadFiles (example_env [(''a'', ''1''), (''b'', ''2'')])
                ''ak1'' ''sk1'' ''src'' ''in'' ''staging'' ''r1'' empty_world)) = [''a'', ''b''] \<and>
   listed (example_env [(''a'', ''1''), (''b'', ''2'')]) ''src'' ''in''
     = bucket_objects (example_env [(''a'', ''1''), (''b'', ''2'')]) ''src'' ''in'' \<and>
   distinct (map Key (listed (example_env [(''a'', ''1''), (''b'', ''2'')]) ''src'' ''in''))"
proof -
  define e where "e = example_env [(''a'', ''1''), (''b'', ''2'')]"
  have h1: "new_session_err e ''src'' = None" unfolding e_def by code_simp
  have h2: "list_objects_err e ''src'' ''in'' = None" unfolding e_def by code_simp
  have h3: "length (bucket_objects e ''src'' ''in'') \<le> max_keys e" unfolding e_def by code_simp
  have h4: "distinct (map Key (bucket_objects e ''src'' ''in''))" unfolding e_def by code_simp
  have r: "gets empty_world @ map Key (filter (mkdir_ok e ''staging'')
             (take (max_keys e) (bucket_objects e ''src'' ''in''))) = [''a'', ''b'']"
    unfolding e_def by code_simp
  show ?thesis
    using download_lists_one_page [OF h1 h2, of "''ak1''" "''sk1''" "''staging''" "''r1''" empty_world]
      h1 h2 h3 h4 r
    unfolding e_def by simp
qed

text \<open>
  C1 as stated fails on a bucket longer than one page: of three objects behind a page
  of two, the third is never requested and never reaches the staging directory.
\<close>

theorem download_misses_second_page:
  "map Key (bucket_objects paged_env ''src'' ''in'') = [''a'', ''b'', ''c''] \<and>
   gets (snd (downloadFiles paged_env ''ak1'' ''sk1'' ''src'' ''in'' ''staging'' ''r1'' empty_world))
     = [''a'', ''b''] \<and>
   map fst (files (snd (downloadFiles paged_env ''ak1'' ''sk1'' ''src'' ''in'' ''staging'' ''r1''
                          empty_world)))
     = [''staging/a'', ''staging/b''] \<and>
   set (gets (snd (downloadFiles paged_env ''ak1'' ''sk1'' ''src'' ''in'' ''staging'' ''r1''
                     empty_world)))
     \<noteq> set (map Key (bucket_objects paged_env ''src'' ''in''))"
  by code_simp

text \<open>
  \<^bold>\<open>C2\<close> (as amended). When the listing request succeeds and no two listed entries
  are mapped to the same local path, then after the download phase: every entry of
  positive size whose directory, request, file creation and copy all succeeded has
  its file, holding the body that was fetched; an entry that is empty or whose
  directory, request or file creation failed has left the file of its path as it was
  before the phase; and so is every file that is the local path of no listed entry.
\<close>

theorem staging_after_download:
  assumes ss: "new_session_err e endpoint = None"
    and ls: "list_objects_err e endpoint bucket = None"
    and di: "distinct (map (local_file localPath) (listed e endpoint bucket))"
    and dl: "downloadFiles e accessKey secretKey endpoint bucket localPath region w = (r, w')"
  shows "(\<forall>object\<in>set (listed e endpoint bucket).
            downloaded e endpoint bucket localPath object \<longrightarrow>
            map_of (files w') (local_file localPath object)
              = Some (fetched_body e endpoint bucket object))
       \<and> (\<forall>object\<in>set (listed e endpoint bucket).
            \<not> creates_file e endpoint bucket localPath object \<longrightarrow>
            map_of (files w') (local_file localPath object)
              = map_of (files w) (local_file localPath object))
       \<and> (\<forall>q. q \<notin> local_file localPath ` set (listed e endpoint bucket) \<longrightarrow>
            map_of (files w') q = map_of (files w) q)"
proof -
  have f: "files w' = files (download_loop e endpoint bucket localPath (w\<lparr>deferred := []\<rparr>)
                             (listed e endpoint bucket))"
    using downloadFiles_files [OF ss ls, of accessKey secretKey localPath region w] dl by simp
  have a: "\<forall>object\<in>set (listed e endpoint bucket).
            downloaded e endpoint bucket localPath object \<longrightarrow>
            map_of (files w') (local_file localPath object)
              = Some (fetched_body e endpoint bucket object)"
    using di by (auto simp: f downloaded_def download_loop_files_content written_bytes_def)
  have b: "\<forall>object\<in>set (listed e endpoint bucket).
            \<not> creates_file e endpoint bucket localPath object \<longrightarrow>
            map_of (files w') (local_file localPath object)
              = map_of (files w) (local_file localPath object)"
    using not_creating_path [OF di] by (simp add: f download_loop_files_other)
  have c: "\<forall>q. q \<notin> local_file localPath ` set (listed e endpoint bucket) \<longrightarrow>
            map_of (files w') q = map_of (files w) q"
  proof (intro allI impI)
    fix q
    assume "q \<notin> local_file localPath ` set (listed e endpoint bucket)"
    then have "q \<notin> set (map (local_file localPath)
                 (filter (creates_file e endpoint bucket localPath) (listed e endpoint bucket)))"
      by auto
    then show "map_of (files w') q = map_of (files w) q"
      by (simp add: f download_loop_files_other)
  qed
  show ?thesis using a b c by blast
qed

theorem staging_after_download_witness:
  "new_session_err one_fails_env ''src'' = None \<and>
   list_objects_err one_fails_env ''src'' ''in'' = None \<and>
   distinct (map (local_file ''staging'') (listed one_fails_env ''src'' ''in'')) \<and>
   \<lparr>Key = ''m'', Size = 2\<rparr> \<in> set (listed one_fails_env ''src'' ''in'') \<and>
   \<lparr>Key = ''d/c'', Size = 2\<rparr> \<in> set (listed one_fails_env ''src'' ''in'') \<and>
   downloaded one_fails_env ''src'' ''in'' ''staging'' \<lparr>Key = ''d/c'', Size = 2\<rparr> \<and>
   \<not> creates_file one_fails_env ''src'' ''in'' ''staging'' \<lparr>Key = ''m'', Size = 2\<rparr> \<and>
   ''staging/x'' \<notin> local_file ''staging'' ` set (listed one_fails_env ''src'' ''in'') \<and>
   map_of (files (snd (downloadFiles one_fails_env ''ak1'' ''sk1'' ''src'' ''in'' ''staging'' ''r1''
                         empty_world))) (local_file ''staging'' \<lparr>Key = ''d/c'', Size = 2\<rparr>)
     = Some ''33'' \<and>
   map_of (files (snd (downloadFiles one_fails_env ''ak1'' ''sk1'' ''src'' ''in'' ''staging'' ''r1''
                         empty_world))) (local_file ''staging'' \<lparr>Key = ''m'', Size = 2\<rparr>)
     = None \<and>
   map_of (files (snd (downloadFiles one_fails_env ''ak1'' ''sk1'' ''src'' ''in'' ''staging'' ''r1''
                         empty_world))) ''staging/x''
     = None"
proof -
  define e where "e = one_fails_env"
  define om where "om = \<lparr>Key = ''m'', Size = 2\<rparr>"
  define oc where "oc = \<lparr>Key = ''d/c'', Size = 2\<rparr>"
  define res where "res = downloadFiles e ''ak1'' ''sk1'' ''src'' ''in'' ''staging'' ''r1'' empty_world"
  have ss: "new_session_err e ''src'' = None" unfolding e_def by code_simp
  have ls: "list_objects_err e ''src'' ''in'' = None" unfolding e_def by code_simp
  have di: "distinct (map (local_file ''staging'') (listed e ''src'' ''in''))"
    unfolding e_def by code_simp
  have dl: "downloadFiles e ''ak1'' ''sk1'' ''src'' ''in'' ''staging'' ''r1'' empty_world = (fst res, snd res)"
    by (simp add: res_def)
  note t = staging_after_download [OF ss ls di dl]
  have im: "om \<in> set (listed e ''src'' ''in'')" unfolding e_def om_def by code_simp
  have ic: "oc \<in> set (listed e ''src'' ''in'')" unfolding e_def oc_def by code_simp
  have dc: "downloaded e ''src'' ''in'' ''staging'' oc" unfolding e_def oc_def by code_simp
  have nm: "\<not> creates_file e ''src'' ''in'' ''staging'' om" unfolding e_def om_def by code_simp
  have nx: "''staging/x'' \<notin> local_file ''staging'' ` set (listed e ''src'' ''in'')"
    unfolding e_def by code_simp
  have fb: "fetched_body e ''src'' ''in'' oc = ''33''" unfolding e_def oc_def by code_simp
  have fe: "map_of (files empty_world) = Map.empty" by (simp add: empty_world_def)
  from t ic dc have 1: "map_of (files (snd res)) (local_file ''staging'' oc)
      = Some (fetched_body e ''src'' ''in'' oc)" by blast
  from t im nm have 2: "map_of (files (snd res)) (local_file ''staging'' om)
      = map_of (files empty_world) (local_file ''staging'' om)" by blast
  from t nx have 3: "map_of (files (snd res)) ''staging/x'' = map_of (files empty_world) ''staging/x''"
    by blast
  show ?thesis
    using ss ls di im ic dc nm nx 1 2 3 fb fe
    unfolding res_def e_def om_def oc_def by simp
qed

text \<open>
  C2 as stated fails where two listed keys are mapped to one local path: the keys
  \<^verbatim>\<open>a/b\<close> and \<^verbatim>\<open>a/b/\<close> are both requested, fetched and written in full, and the
  staging directory holds one file, with the body of the second.
\<close>

theorem staging_one_file_for_two_objects:
  "listed colliding_env ''src'' ''in'' = [\<lparr>Key = ''a/b'', Size = 3\<rparr>, \<lparr>Key = ''a/b/'', Size = 4\<rparr>] \<and>
   filepath_Join ''staging'' ''a/b'' = ''staging/a/b'' \<and>
   filepath_Join ''staging'' ''a/b/'' = ''staging/a/b'' \<and>
   downloaded colliding_env ''src'' ''in'' ''staging'' \<lparr>Key = ''a/b'', Size = 3\<rparr> \<and>
   downloaded colliding_env ''src'' ''in'' ''staging'' \<lparr>Key = ''a/b/'', Size = 4\<rparr> \<and>
   fetched_body colliding_env ''src'' ''in'' \<lparr>Key = ''a/b'', Size = 3\<rparr> = ''111'' \<and>
   gets (snd (downloadFiles colliding_env ''ak1'' ''sk1'' ''src'' ''in'' ''staging'' ''r1'' empty_world))
     = [''a/b'', ''a/b/''] \<and>
   files (snd (downloadFiles colliding_env ''ak1'' ''sk1'' ''src'' ''in'' ''staging'' ''r1'' empty_world))
     = [(''staging/a/b'', ''2222'')]"
  by code_simp

text \<open>
  What a copy that fails leaves behind is no part of the statement above: the file
  was created, so what was written of it stays in the staging directory, and the
  upload phase sends it. Here the copy of the 5 bytes of \<^verbatim>\<open>a.txt\<close> stops after 2.
\<close>

lemma truncated_file_is_uploaded:
  "stdout (snd (downloadFiles copy_fails_env ''ak1'' ''sk1'' ''src'' ''in'' ''./staging'' ''r1''
                  staged_world))
     = [''Error copying object to local file: a.txt reset''] \<and>
   files (snd (downloadFiles copy_fails_env ''ak1'' ''sk1'' ''src'' ''in'' ''./staging'' ''r1''
                 staged_world))
     = [(''staging/a.txt'', ''he'')] \<and>
   fst (main copy_fails_env empty_world) = 0 \<and>
   puts (snd (main copy_fails_env empty_world)) = [(''a.txt'', ''he'')]"
  by code_simp




text \<open>
  \<^bold>\<open>C4\<close>. When the walk reaches a file whose \<^verbatim>\<open>PutObject\<close> request fails, after
  visits that all went well, \<^verbatim>\<open>uploadFiles\<close> returns that error at once: the requests
  sent are those of the visits up to and with the failing one, at most one for each
  regular file visited so far and none for what the walk had still to visit, and
  \<^verbatim>\<open>main\<close> prints the error and exits with status 1.
\<close>

theorem upload_aborts_at_first_failure:
  assumes ss: "new_session_err e (Endpoint (Destination config)) = None"
    and wk: "Walk_visits e w (LocalDownloadPath (Source config)) = pre @ v # post"
    and ok: "\<forall>u\<in>set pre. visit_fails e (Endpoint (Destination config)) (Bucket (Destination config))
                             (LocalDownloadPath (Source config)) u = None"
    and sv: "sends e v"
    and pf: "put_object_err e (Endpoint (Destination config)) (Bucket (Destination config))
               (uploadKey_of (LocalDownloadPath (Source config)) (v_path v)) = Some er"
    and w': "w' = w\<lparr>puts := puts w @ map (put_of (LocalDownloadPath (Source config)) w)
                                     (filter (sends e) (pre @ [v]))\<rparr>"
  shows "uploadFiles e (AccessKey (Destination config)) (SecretKey (Destination config))
           (Endpoint (Destination config)) (Bucket (Destination config))
           (LocalDownloadPath (Source config)) (Region (Destination config)) w
         = (Returned (Some er), w')
       \<and> length (puts w') \<le> length (puts w) + length (filter (\<lambda>u. \<not> v_isdir u) (pre @ [v]))
       \<and> main_upload e config w = (1, println (''Error uploading files: '' @ err_msg er) w')"
proof -
  have vf: "visit_fails e (Endpoint (Destination config)) (Bucket (Destination config))
              (LocalDownloadPath (Source config)) v = Some er"
    using sv pf by (simp add: visit_fails_def sends_def)
  have u: "uploadFiles e (AccessKey (Destination config)) (SecretKey (Destination config))
           (Endpoint (Destination config)) (Bucket (Destination config))
           (LocalDownloadPath (Source config)) (Region (Destination config)) w
         = (Returned (Some er), w')"
    unfolding w' by (rule uploadFiles_fail [OF ss wk ok vf])
  have l: "length (puts w') \<le> length (puts w) + length (filter (\<lambda>u. \<not> v_isdir u) (pre @ [v]))"
    unfolding w' using sends_le_files [of e "pre @ [v]"] by simp
  show ?thesis using u l main_upload_fail [OF u] by blast
qed

theorem upload_aborts_at_first_failure_witness:
  "new_session_err put_fails_env ''dst'' = None \<and>
   Walk_visits put_fails_env three_files_world ''./staging''
     = [Visit ''./staging'' True 0 None, Visit ''staging/a'' False 1 None]
       @ Visit ''staging/b'' False 1 None # [Visit ''staging/c'' False 1 None] \<and>
   sends put_fails_env (Visit ''staging/b'' False 1 None) \<and>
   put_object_err put_fails_env ''dst'' ''out'' (uploadKey_of ''./staging'' ''staging/b'') = Some (Err ''denied'') \<and>
   uploadFiles put_fails_env ''ak2'' ''sk2'' ''dst'' ''out'' ''./staging'' ''r2'' three_files_world
     = (Returned (Some (Err ''denied'')), three_files_world\<lparr>puts := [(''a'', ''1''), (''b'', ''2'')]\<rparr>) \<and>
   main_upload put_fails_env example_config three_files_world
     = (1, three_files_world\<lparr>puts := [(''a'', ''1''), (''b'', ''2'')],
                               stdout := [''Error uploading files: denied'']\<rparr>)"
proof -
  define e where "e = put_fails_env"
  define pre where "pre = [Visit ''./staging'' True 0 None, Visit ''staging/a'' False 1 None]"
  define v where "v = Visit ''staging/b'' False 1 None"
  define post where "post = [Visit ''staging/c'' False 1 None]"
  define w' where "w' = three_files_world\<lparr>puts := puts three_files_world @
     map (put_of (LocalDownloadPath (Source example_config)) three_files_world) (filter (sends e) (pre @ [v]))\<rparr>"
  have cf: "AccessKey (Destination example_config) = ''ak2''" "SecretKey (Destination example_config) = ''sk2''"
    "Endpoint (Destination example_config) = ''dst''" "Bucket (Destination example_config) = ''out''"
    "LocalDownloadPath (Source example_config) = ''./staging''" "Region (Destination example_config) = ''r2''"
    by (simp_all add: example_config_def)
  have ss: "new_session_err e (Endpoint (Destination example_config)) = None" unfolding e_def by code_simp
  have wk: "Walk_visits e three_files_world (LocalDownloadPath (Source example_config)) = pre @ v # post"
    unfolding e_def pre_def v_def post_def by code_simp
  have ok: "\<forall>u\<in>set pre. visit_fails e (Endpoint (Destination example_config))
              (Bucket (Destination example_config)) (LocalDownloadPath (Source example_config)) u = None"
    unfolding e_def pre_def by code_simp
  have sv: "sends e v" unfolding e_def v_def by code_simp
  have pf: "put_object_err e (Endpoint (Destination example_config)) (Bucket (Destination example_config))
               (uploadKey_of (LocalDownloadPath (Source example_config)) (v_path v)) = Some (Err ''denied'')"
    unfolding e_def v_def by code_simp
  have wv: "w' = three_files_world\<lparr>puts := [(''a'', ''1''), (''b'', ''2'')]\<rparr>"
    unfolding w'_def e_def pre_def v_def by code_simp
  have pl: "println (''Error uploading files: '' @ err_msg (Err ''denied''))
              (three_files_world\<lparr>puts := [(''a'', ''1''), (''b'', ''2'')]\<rparr>)
            = three_files_world\<lparr>puts := [(''a'', ''1''), (''b'', ''2'')],
                               stdout := [''Error uploading files: denied'']\<rparr>"
    by code_simp
  note t = upload_aborts_at_first_failure [OF ss wk ok sv pf w'_def, unfolded cf wv pl]
  show ?thesis
    using t ss wk sv pf unfolding cf e_def pre_def v_def post_def by simp
qed

text \<open>
  \<^bold>\<open>C5\<close> (as amended). For every staging root and every key that is a clean relative
  path (elements separated by single slashes, none of them empty, \<^verbatim>\<open>.\<close> or
  \<^verbatim>\<open>..\<close>), mapping the key to its local path and that path back to an upload key
  gives the key unchanged.
\<close>

theorem key_round_trip_clean:
  "clean_key k \<Longrightarrow> uploadKey_of d (localFilePath_of d k) = k"
  by (simp add: uploadKey_of_def localFilePath_of_def Rel_Join_clean_key filepath_ToSlash_def
      strings_TrimPrefix_def clean_key_no_dot_slash)

theorem key_round_trip_clean_witness:
  "clean_key ''dir/c.txt'' \<and>
   uploadKey_of ''./staging'' (localFilePath_of ''./staging'' ''dir/c.txt'') = ''dir/c.txt''"
proof -
  have h: "clean_key ''dir/c.txt''" by code_simp
  show ?thesis using h key_round_trip_clean [OF h, of "''./staging''"] by simp
qed

text \<open>
  C5 as stated fails: the key \<^verbatim>\<open>a//b.txt\<close> holds forward slashes only, its local path
  is \<^verbatim>\<open>staging/a/b.txt\<close>, and the key that comes back is \<^verbatim>\<open>a/b.txt\<close>.
\<close>

theorem key_round_trip_doubled_slash:
  "CHR 0x5C \<notin> set ''a//b.txt'' \<and>
   localFilePath_of ''staging'' ''a//b.txt'' = ''staging/a/b.txt'' \<and>
   uploadKey_of ''staging'' (localFilePath_of ''staging'' ''a//b.txt'') = ''a/b.txt'' \<and>
   uploadKey_of ''staging'' (localFilePath_of ''staging'' ''a//b.txt'') \<noteq> ''a//b.txt''"
  by code_simp




text \<open>
  \<^bold>\<open>C7\<close>. In a run where the configuration is read, the staging directory is made
  and both phases return without error: when the removal succeeds, \<^verbatim>\<open>main\<close> ends with
  status 0, its last line of output is the completion message, and neither the staging
  directory nor anything below it exists any more; when the removal fails, \<^verbatim>\<open>main\<close>
  exits with status 1 and its last line of output is the message of that error.
\<close>

theorem cleanup_and_exit:
  assumes rc: "readConfig e ''config.yaml'' = Inr config"
    and mk: "os_MkdirAll e (LocalDownloadPath (Source config)) w = Inr w1"
    and dl: "downloadFiles e (AccessKey (Source config)) (SecretKey (Source config))
               (Endpoint (Source config)) (Bucket (Source config))
               (LocalDownloadPath (Source config)) (Region (Source config)) w1 = (Returned None, w2)"
    and ul: "uploadFiles e (AccessKey (Destination config)) (SecretKey (Destination config))
               (Endpoint (Destination config)) (Bucket (Destination config))
               (LocalDownloadPath (Source config)) (Region (Destination config)) w2 = (Returned None, w3)"
  shows "(remove_all_err e (LocalDownloadPath (Source config)) = None \<longrightarrow>
            fst (main e w) = 0
          \<and> stdout (snd (main e w))
              = stdout w3 @ [''Download and upload complete. Deleted local files and directory.'']
          \<and> filepath_Clean (LocalDownloadPath (Source config)) \<notin> set (dirs (snd (main e w)))
          \<and> (\<forall>q\<in>set (dirs (snd (main e w))) \<union> fst ` set (files (snd (main e w))).
                \<not> inside (LocalDownloadPath (Source config)) q))
       \<and> (\<forall>er. remove_all_err e (LocalDownloadPath (Source config)) = Some er \<longrightarrow>
            fst (main e w) = 1
          \<and> stdout (snd (main e w))
              = stdout w3 @ [''Error deleting files and directory: '' @ err_msg er])"
proof -
  define lp where "lp = LocalDownloadPath (Source config)"
  have m: "main e w = main_cleanup e config w3" by (rule main_to_cleanup [OF rc mk dl ul])
  have a: "remove_all_err e lp = None \<longrightarrow>
            fst (main e w) = 0
          \<and> stdout (snd (main e w))
              = stdout w3 @ [''Download and upload complete. Deleted local files and directory.'']
          \<and> filepath_Clean lp \<notin> set (dirs (snd (main e w)))
          \<and> (\<forall>q\<in>set (dirs (snd (main e w))) \<union> fst ` set (files (snd (main e w))). \<not> inside lp q)"
  proof
    assume ok: "remove_all_err e lp = None"
    then obtain w4 where w4: "os_RemoveAll e lp w3 = Inr w4" by (simp add: os_RemoveAll_def)
    have s4: "stdout w4 = stdout w3" using w4 ok by (auto simp: os_RemoveAll_def)
    have r: "main e w = (0, println ''Download and upload complete. Deleted local files and directory.'' w4)"
      using w4 by (simp add: m main_cleanup_def lp_def)
    show "fst (main e w) = 0
          \<and> stdout (snd (main e w))
              = stdout w3 @ [''Download and upload complete. Deleted local files and directory.'']
          \<and> filepath_Clean lp \<notin> set (dirs (snd (main e w)))
          \<and> (\<forall>q\<in>set (dirs (snd (main e w))) \<union> fst ` set (files (snd (main e w))). \<not> inside lp q)"
      using os_RemoveAll_gone [OF w4] s4 by (simp add: r println_def)
  qed
  have b: "\<forall>er. remove_all_err e lp = Some er \<longrightarrow>
            fst (main e w) = 1
          \<and> stdout (snd (main e w)) = stdout w3 @ [''Error deleting files and directory: '' @ err_msg er]"
    by (simp add: m main_cleanup_def lp_def [symmetric] os_RemoveAll_def println_def)
  show ?thesis using a b unfolding lp_def by blast
qed

theorem cleanup_and_exit_witness:
  "readConfig scenario_env ''config.yaml'' = Inr example_config \<and>
   os_MkdirAll scenario_env ''./staging'' empty_world = Inr staged_world \<and>
   fst (downloadFiles scenario_env ''ak1'' ''sk1'' ''src'' ''in'' ''./staging'' ''r1'' staged_world)
     = Returned None \<and>
   fst (uploadFiles scenario_env ''ak2'' ''sk2'' ''dst'' ''out'' ''./staging'' ''r2''
          (snd (downloadFiles scenario_env ''ak1'' ''sk1'' ''src'' ''in'' ''./staging'' ''r1'' staged_world)))
     = Returned None \<and>
   remove_all_err scenario_env ''./staging'' = None \<and>
   fst (main scenario_env empty_world) = 0 \<and>
   stdout (snd (main scenario_env empty_world))
     = [''Downloaded file: a.txt'', ''Downloaded file: dir/c.txt'',
        ''Download and upload complete. Deleted local files and directory.''] \<and>
   filepath_Clean ''./staging'' \<notin> set (dirs (snd (main scenario_env empty_world))) \<and>
   remove_all_err no_remove_env ''./staging'' = Some (Err ''busy'') \<and>
   fst (main no_remove_env empty_world) = 1 \<and>
   stdout (snd (main no_remove_env empty_world))
     = [''Downloaded file: a.txt'', ''Downloaded file: dir/c.txt'',
        ''Error deleting files and directory: busy'']"
proof -
  have cf: "AccessKey (Destination example_config) = ''ak2''" "SecretKey (Destination example_config) = ''sk2''"
    "Endpoint (Destination example_config) = ''dst''" "Bucket (Destination example_config) = ''out''"
    "LocalDownloadPath (Source example_config) = ''./staging''" "Region (Destination example_config) = ''r2''"
    "AccessKey (Source example_config) = ''ak1''" "SecretKey (Source example_config) = ''sk1''"
    "Endpoint (Source example_config) = ''src''" "Bucket (Source example_config) = ''in''"
    "Region (Source example_config) = ''r1''"
    by (simp_all add: example_config_def)
  define d1 where "d1 = downloadFiles scenario_env ''ak1'' ''sk1'' ''src'' ''in'' ''./staging'' ''r1'' staged_world"
  define u1 where "u1 = uploadFiles scenario_env ''ak2'' ''sk2'' ''dst'' ''out'' ''./staging'' ''r2'' (snd d1)"
  define d2 where "d2 = downloadFiles no_remove_env ''ak1'' ''sk1'' ''src'' ''in'' ''./staging'' ''r1'' staged_world"
  define u2 where "u2 = uploadFiles no_remove_env ''ak2'' ''sk2'' ''dst'' ''out'' ''./staging'' ''r2'' (snd d2)"
  have rc1: "readConfig scenario_env ''config.yaml'' = Inr example_config" by code_simp
  have mk1: "os_MkdirAll scenario_env (LocalDownloadPath (Source example_config)) empty_world = Inr staged_world"
    by code_simp
  have fd1: "fst d1 = Returned None" unfolding d1_def by code_simp
  have fu1: "fst u1 = Returned None" unfolding u1_def d1_def by code_simp
  have dl1: "downloadFiles scenario_env (AccessKey (Source example_config)) (SecretKey (Source example_config))
               (Endpoint (Source example_config)) (Bucket (Source example_config))
               (LocalDownloadPath (Source example_config)) (Region (Source example_config)) staged_world
             = (Returned None, snd d1)"
    using fd1 by (simp add: cf d1_def [symmetric] prod_eq_iff)
  have ul1: "uploadFiles scenario_env (AccessKey (Destination example_config)) (SecretKey (Destination example_config))
               (Endpoint (Destination example_config)) (Bucket (Destination example_config))
               (LocalDownloadPath (Source example_config)) (Region (Destination example_config)) (snd d1)
             = (Returned None, snd u1)"
    using fu1 by (simp add: cf u1_def [symmetric] prod_eq_iff)
  have rm1: "remove_all_err scenario_env (LocalDownloadPath (Source example_config)) = None" by code_simp
  have so1: "stdout (snd u1) = [''Downloaded file: a.txt'', ''Downloaded file: dir/c.txt'']"
    unfolding u1_def d1_def by code_simp
  note t1 = cleanup_and_exit [OF rc1 mk1 dl1 ul1]
  have rc2: "readConfig no_remove_env ''config.yaml'' = Inr example_config" by code_simp
  have mk2: "os_MkdirAll no_remove_env (LocalDownloadPath (Source example_config)) empty_world = Inr staged_world"
    by code_simp
  have fd2: "fst d2 = Returned None" unfolding d2_def by code_simp
  have fu2: "fst u2 = Returned None" unfolding u2_def d2_def by code_simp
  have dl2: "downloadFiles no_remove_env (AccessKey (Source example_config)) (SecretKey (Source example_config))
               (Endpoint (Source example_config)) (Bucket (Source example_config))
               (LocalDownloadPath (Source example_config)) (Region (Source example_config)) staged_world
             = (Returned None, snd d2)"
    using fd2 by (simp add: cf d2_def [symmetric] prod_eq_iff)
  have ul2: "uploadFiles no_remove_env (AccessKey (Destination example_config)) (SecretKey (Destination example_config))
               (Endpoint (Destination example_config)) (Bucket (Destination example_config))
               (LocalDownloadPath (Source example_config)) (Region (Destination example_config)) (snd d2)
             = (Returned None, snd u2)"
    using fu2 by (simp add: cf u2_def [symmetric] prod_eq_iff)
  have rm2: "remove_all_err no_remove_env (LocalDownloadPath (Source example_config)) = Some (Err ''busy'')"
    by code_simp
  have so2: "stdout (snd u2) = [''Downloaded file: a.txt'', ''Downloaded file: dir/c.txt'']"
    unfolding u2_def d2_def by code_simp
  note t2 = cleanup_and_exit [OF rc2 mk2 dl2 ul2]
  from t1 rm1 have a: "fst (main scenario_env empty_world) = 0"
    "stdout (snd (main scenario_env empty_world))
       = stdout (snd u1) @ [''Download and upload complete. Deleted local files and directory.'']"
    "filepath_Clean (LocalDownloadPath (Source example_config)) \<notin> set (dirs (snd (main scenario_env empty_world)))"
    by blast+
  from t2 rm2 have b: "fst (main no_remove_env empty_world) = 1"
    "stdout (snd (main no_remove_env empty_world))
       = stdout (snd u2) @ [''Error deleting files and directory: '' @ err_msg (Err ''busy'')]"
    by blast+
  show ?thesis
    using rc1 mk1 fd1 fu1 rm1 a b rm2 so1 so2
    unfolding cf d1_def u1_def by simp
qed

text \<open>
  \<^bold>\<open>C8\<close> (the code at a failing input). After the loop of \<^verbatim>\<open>downloadFiles\<close> has
  run over two non-empty objects that download without error, the handles of both
  local files are open: each \<^verbatim>\<open>Close\<close> was deferred to the return of the function,
  not to the end of the iteration. They are closed once \<^verbatim>\<open>downloadFiles\<close> returns.
\<close>

theorem download_loop_keeps_handles_open:
  "handles (download_loop (example_env [(''a'', ''1''), (''b'', ''2'')]) ''src'' ''in'' ''staging''
              empty_world
              (listed (example_env [(''a'', ''1''), (''b'', ''2'')]) ''src'' ''in''))
     = [''staging/b'', ''staging/a''] \<and>
   handles (snd (downloadFiles (example_env [(''a'', ''1''), (''b'', ''2'')]) ''ak1'' ''sk1''
                   ''src'' ''in'' ''staging'' ''r1'' empty_world))
     = []"
  by code_simp

text \<open>
  \<^bold>\<open>C9\<close> (as amended). The downloader sends a get-object request for every listed
  entry whose directory could be made, whatever its size: the size is looked at only
  after the request, and guards the creation of the local file and the copy alone. A
  request that fails, for an entry of size 0 as for any other, is logged, writes no
  file, and the loop goes on. An entry whose directory cannot be made is passed over
  with no request.
\<close>

theorem fetch_precedes_size_check:
  assumes "new_session_err e endpoint = None" and "list_objects_err e endpoint bucket = None"
  shows "(\<forall>object\<in>set (listed e endpoint bucket). mkdir_ok e localPath object \<longrightarrow>
            Key object \<in> set (gets (snd (downloadFiles e accessKey secretKey endpoint bucket
                                            localPath region w))))
       \<and> (\<forall>object er. mkdir_ok e localPath object \<and>
              get_object e endpoint bucket (Key object) = Inl er \<longrightarrow>
            stdout (process_object e endpoint bucket localPath w object) =
              stdout w @ [''Error getting object: '' @ Key object @ '' '' @ err_msg er] \<and>
            files (process_object e endpoint bucket localPath w object) = files w)
       \<and> (\<forall>object. \<not> mkdir_ok e localPath object \<longrightarrow>
            gets (process_object e endpoint bucket localPath w object) = gets w)"
  using assms by (auto simp: downloadFiles_gets process_object_fetch_error process_object_gets)

theorem fetch_precedes_size_check_witness:
  "new_session_err fetch_fails_env ''src'' = None \<and>
   list_objects_err fetch_fails_env ''src'' ''in'' = None \<and>
   \<lparr>Key = ''z'', Size = 0\<rparr> \<in> set (listed fetch_fails_env ''src'' ''in'') \<and>
   mkdir_ok fetch_fails_env ''staging'' \<lparr>Key = ''z'', Size = 0\<rparr> \<and>
   get_object fetch_fails_env ''src'' ''in'' ''z'' = Inl (Err ''timeout'') \<and>
   ''z'' \<in> set (gets (snd (downloadFiles fetch_fails_env ''ak1'' ''sk1'' ''src'' ''in'' ''staging''
                             ''r1'' empty_world))) \<and>
   stdout (process_object fetch_fails_env ''src'' ''in'' ''staging'' empty_world \<lparr>Key = ''z'', Size = 0\<rparr>)
     = [''Error getting object: z timeout''] \<and>
   files (process_object fetch_fails_env ''src'' ''in'' ''staging'' empty_world \<lparr>Key = ''z'', Size = 0\<rparr>)
     = [] \<and>
   \<not> mkdir_ok no_mkdir_env ''staging'' \<lparr>Key = ''d/x'', Size = 0\<rparr> \<and>
   gets (process_object no_mkdir_env ''src'' ''in'' ''staging'' empty_world \<lparr>Key = ''d/x'', Size = 0\<rparr>)
     = []"
proof -
  have h1: "new_session_err fetch_fails_env ''src'' = None" by code_simp
  have h2: "list_objects_err fetch_fails_env ''src'' ''in'' = None" by code_simp
  have h3: "\<lparr>Key = ''z'', Size = 0\<rparr> \<in> set (listed fetch_fails_env ''src'' ''in'')" by code_simp
  have h4: "mkdir_ok fetch_fails_env ''staging'' \<lparr>Key = ''z'', Size = 0\<rparr>" by code_simp
  have h5: "get_object fetch_fails_env ''src'' ''in'' (Key \<lparr>Key = ''z'', Size = 0\<rparr>) = Inl (Err ''timeout'')"
    by code_simp
  have h6: "stdout empty_world = []" "files empty_world = []" by code_simp+
  note t = fetch_precedes_size_check [OF h1 h2, of "''staging''" "''ak1''" "''sk1''" "''r1''" empty_world]
  from t h3 h4 have a: "Key \<lparr>Key = ''z'', Size = 0\<rparr> \<in> set (gets (snd (downloadFiles fetch_fails_env ''ak1'' ''sk1'' ''src'' ''in'' ''staging''
                             ''r1'' empty_world)))"
    by blast
  from t h4 h5 have b: "stdout (process_object fetch_fails_env ''src'' ''in'' ''staging'' empty_world \<lparr>Key = ''z'', Size = 0\<rparr>) =
              stdout empty_world @ [''Error getting object: '' @ Key \<lparr>Key = ''z'', Size = 0\<rparr> @ '' '' @ err_msg (Err ''timeout'')] \<and>
            files (process_object fetch_fails_env ''src'' ''in'' ''staging'' empty_world \<lparr>Key = ''z'', Size = 0\<rparr>) = files empty_world"
    by blast
  have n1: "new_session_err no_mkdir_env ''src'' = None" by code_simp
  have n2: "list_objects_err no_mkdir_env ''src'' ''in'' = None" by code_simp
  have n3: "\<not> mkdir_ok no_mkdir_env ''staging'' \<lparr>Key = ''d/x'', Size = 0\<rparr>" by code_simp
  have n4: "gets empty_world = []" by code_simp
  note u = fetch_precedes_size_check [OF n1 n2, of "''staging''" "''ak1''" "''sk1''" "''r1''" empty_world]
  from u n3 have c: "gets (process_object no_mkdir_env ''src'' ''in'' ''staging'' empty_world
                             \<lparr>Key = ''d/x'', Size = 0\<rparr>) = gets empty_world"
    by blast
  show ?thesis using h1 h2 h3 h4 h5 h6 a b n3 n4 c by simp
qed

text \<open>
  C9 as stated fails for a listed entry whose directory cannot be made: the loop logs
  the error and goes to the next entry before any request is sent.
\<close>

theorem no_fetch_after_mkdir_error:
  "map Key (listed no_mkdir_env ''src'' ''in'') = [''d/x''] \<and>
   gets (snd (downloadFiles no_mkdir_env ''ak1'' ''sk1'' ''src'' ''in'' ''staging'' ''r1'' empty_world)) = [] \<and>
   stdout (snd (downloadFiles no_mkdir_env ''ak1'' ''sk1'' ''src'' ''in'' ''staging'' ''r1'' empty_world))
     = [''Error creating subdirectories: permission denied'']"
  by code_simp

text \<open>
  \<^bold>\<open>C10\<close>. The function passed to the walk opens a regular file before it looks at
  its size: an empty file that opens is closed again and skipped with no request, but
  an empty file that cannot be opened makes the function return the error, so the walk
  stops there, \<^verbatim>\<open>uploadFiles\<close> returns the error with no request for what was still
  to visit, and \<^verbatim>\<open>main\<close> exits with status 1.
\<close>

theorem open_precedes_size_check:
  assumes ss: "new_session_err e (Endpoint (Destination config)) = None"
    and wk: "Walk_visits e w (LocalDownloadPath (Source config)) = pre @ v # post"
    and ok: "\<forall>u\<in>set pre. visit_fails e (Endpoint (Destination config)) (Bucket (Destination config))
                             (LocalDownloadPath (Source config)) u = None"
    and ve: "v_err v = None" and vd: "\<not> v_isdir v" and vs: "v_size v = 0"
    and op: "open_err e (v_path v) = Some er"
    and w': "w' = w\<lparr>puts := puts w @ map (put_of (LocalDownloadPath (Source config)) w)
                                     (filter (sends e) pre)\<rparr>"
  shows "upload_visit e (Endpoint (Destination config)) (Bucket (Destination config))
           (LocalDownloadPath (Source config)) w0 v = (Some er, w0)
       \<and> uploadFiles e (AccessKey (Destination config)) (SecretKey (Destination config))
           (Endpoint (Destination config)) (Bucket (Destination config))
           (LocalDownloadPath (Source config)) (Region (Destination config)) w
         = (Returned (Some er), w')
       \<and> main_upload e config w = (1, println (''Error uploading files: '' @ err_msg er) w')
       \<and> (\<forall>u. v_err u = None \<and> \<not> v_isdir u \<and> v_size u \<le> 0 \<and> open_err e (v_path u) = None \<longrightarrow>
            upload_visit e (Endpoint (Destination config)) (Bucket (Destination config))
              (LocalDownloadPath (Source config)) w0 u = (None, w0))"
proof -
  have vf: "visit_fails e (Endpoint (Destination config)) (Bucket (Destination config))
              (LocalDownloadPath (Source config)) v = Some er"
    using ve vd op by (simp add: visit_fails_def)
  have ns: "\<not> sends e v" using op by (simp add: sends_def)
  have a: "upload_visit e (Endpoint (Destination config)) (Bucket (Destination config))
           (LocalDownloadPath (Source config)) w0 v = (Some er, w0)"
    using vf ns by (simp add: upload_visit_eq)
  have u: "uploadFiles e (AccessKey (Destination config)) (SecretKey (Destination config))
           (Endpoint (Destination config)) (Bucket (Destination config))
           (LocalDownloadPath (Source config)) (Region (Destination config)) w
         = (Returned (Some er), w')"
    unfolding w' using uploadFiles_fail [OF ss wk ok vf] ns by simp
  have z: "\<forall>u. v_err u = None \<and> \<not> v_isdir u \<and> v_size u \<le> 0 \<and> open_err e (v_path u) = None \<longrightarrow>
            upload_visit e (Endpoint (Destination config)) (Bucket (Destination config))
              (LocalDownloadPath (Source config)) w0 u = (None, w0)"
    by (simp add: upload_visit_eq visit_fails_def sends_def)
  show ?thesis using a u main_upload_fail [OF u] z by blast
qed

theorem open_precedes_size_check_witness:
  "new_session_err open_fails_env ''dst'' = None \<and>
   Walk_visits open_fails_env empty_file_world ''./staging''
     = [Visit ''./staging'' True 0 None, Visit ''staging/a'' False 1 None]
       @ Visit ''staging/b'' False 0 None # [Visit ''staging/c'' False 1 None] \<and>
   open_err open_fails_env ''staging/b'' = Some (Err ''locked'') \<and>
   upload_visit open_fails_env ''dst'' ''out'' ''./staging'' empty_file_world (Visit ''staging/b'' False 0 None)
     = (Some (Err ''locked''), empty_file_world) \<and>
   uploadFiles open_fails_env ''ak2'' ''sk2'' ''dst'' ''out'' ''./staging'' ''r2'' empty_file_world
     = (Returned (Some (Err ''locked'')), empty_file_world\<lparr>puts := [(''a'', ''1'')]\<rparr>) \<and>
   main_upload open_fails_env example_config empty_file_world
     = (1, empty_file_world\<lparr>puts := [(''a'', ''1'')], stdout := [''Error uploading files: locked'']\<rparr>) \<and>
   upload_visit open_fails_env ''dst'' ''out'' ''./staging'' empty_file_world (Visit ''staging/e'' False 0 None)
     = (None, empty_file_world)"
proof -
  define e where "e = open_fails_env"
  define pre where "pre = [Visit ''./staging'' True 0 None, Visit ''staging/a'' False 1 None]"
  define v where "v = Visit ''staging/b'' False 0 None"
  define post where "post = [Visit ''staging/c'' False 1 None]"
  define u where "u = Visit ''staging/e'' False 0 None"
  define w' where "w' = empty_file_world\<lparr>puts := puts empty_file_world @
     map (put_of (LocalDownloadPath (Source example_config)) empty_file_world) (filter (sends e) pre)\<rparr>"
  have cf: "AccessKey (Destination example_config) = ''ak2''" "SecretKey (Destination example_config) = ''sk2''"
    "Endpoint (Destination example_config) = ''dst''" "Bucket (Destination example_config) = ''out''"
    "LocalDownloadPath (Source example_config) = ''./staging''" "Region (Destination example_config) = ''r2''"
    by (simp_all add: example_config_def)
  have ss: "new_session_err e (Endpoint (Destination example_config)) = None" unfolding e_def by code_simp
  have wk: "Walk_visits e empty_file_world (LocalDownloadPath (Source example_config)) = pre @ v # post"
    unfolding e_def pre_def v_def post_def by code_simp
  have ok: "\<forall>u\<in>set pre. visit_fails e (Endpoint (Destination example_config))
              (Bucket (Destination example_config)) (LocalDownloadPath (Source example_config)) u = None"
    unfolding e_def pre_def by code_simp
  have ve: "v_err v = None" and vd: "\<not> v_isdir v" and vs: "v_size v = 0" by (simp_all add: v_def)
  have op: "open_err e (v_path v) = Some (Err ''locked'')" unfolding e_def v_def by code_simp
  have uu: "v_err u = None \<and> \<not> v_isdir u \<and> v_size u \<le> 0 \<and> open_err e (v_path u) = None"
    unfolding e_def u_def by code_simp
  have wv: "w' = empty_file_world\<lparr>puts := [(''a'', ''1'')]\<rparr>"
    unfolding w'_def e_def pre_def by code_simp
  have pl: "println (''Error uploading files: '' @ err_msg (Err ''locked''))
              (empty_file_world\<lparr>puts := [(''a'', ''1'')]\<rparr>)
            = empty_file_world\<lparr>puts := [(''a'', ''1'')], stdout := [''Error uploading files: locked'']\<rparr>"
    by code_simp
  note t = open_precedes_size_check [OF ss wk ok ve vd vs op w'_def, of empty_file_world, unfolded cf wv pl]
  from t uu have z: "upload_visit e ''dst'' ''out'' ''./staging'' empty_file_world u = (None, empty_file_world)"
    by blast
  show ?thesis
    using t z ss wk op unfolding cf e_def pre_def v_def post_def u_def by simp
qed

end
